theory Spec2Isabelle
  imports Complex_Main
begin

section \<open>JavaScript numbers\<close>

text \<open>
  The program computes with JavaScript numbers. They are modelled as the real numbers
  extended by the three special values of IEEE 754: \<open>NaN\<close>, \<open>Infinity\<close> and
  \<open>-Infinity\<close>. The special values follow the rules of JavaScript (\<open>NaN\<close> is
  absorbing, every comparison with \<open>NaN\<close> is false, \<open>Infinity - Infinity\<close> and
  \<open>0 * Infinity\<close> are \<open>NaN\<close>, a nonzero finite number divided by zero is infinite).

  Rounding is modelled where a value is kept: an element of a \<open>Float32Array\<close> is the
  float32 nearest to the number assigned to it (\<open>Math_fround\<close>), and the smoothing of the
  wind, whose result is carried from frame to frame, rounds each of its operations to
  binary64 (\<open>toDouble\<close>). The other operations (in a loop pass the trigonometry, whose
  rounding JavaScript leaves to the implementation, and the arithmetic around it; the
  arithmetic of the pointer handlers) are taken exact, so the theorems about a computed
  target state the formula that the code applies. The sign of zero is not modelled.
\<close>

datatype number = NaN | NegInfinity | Num real | Infinity

fun sign_of :: "number \<Rightarrow> real" where
  "sign_of NaN = 0"
| "sign_of NegInfinity = - 1"
| "sign_of Infinity = 1"
| "sign_of (Num a) = sgn a"

definition inf_of_sign :: "real \<Rightarrow> number" where
  "inf_of_sign s = (if s = 0 then NaN else if 0 < s then Infinity else NegInfinity)"

instantiation number :: "{zero, one, plus, uminus, minus, times, inverse, ord}"
begin

definition zero_number :: number where
  "zero_number = Num 0"

definition one_number :: number where
  "one_number = Num 1"

fun plus_number :: "number \<Rightarrow> number \<Rightarrow> number" where
  "plus_number NaN y = NaN"
| "plus_number x NaN = NaN"
| "plus_number (Num a) (Num b) = Num (a + b)"
| "plus_number Infinity NegInfinity = NaN"
| "plus_number NegInfinity Infinity = NaN"
| "plus_number Infinity y = Infinity"
| "plus_number x Infinity = Infinity"
| "plus_number NegInfinity y = NegInfinity"
| "plus_number x NegInfinity = NegInfinity"

fun uminus_number :: "number \<Rightarrow> number" where
  "uminus_number NaN = NaN"
| "uminus_number NegInfinity = Infinity"
| "uminus_number Infinity = NegInfinity"
| "uminus_number (Num a) = Num (- a)"

definition minus_number :: "number \<Rightarrow> number \<Rightarrow> number" where
  "minus_number x y = x + (- y)"

fun times_number :: "number \<Rightarrow> number \<Rightarrow> number" where
  "times_number NaN y = NaN"
| "times_number x NaN = NaN"
| "times_number (Num a) (Num b) = Num (a * b)"
| "times_number x y = inf_of_sign (sign_of x * sign_of y)"

fun divide_number :: "number \<Rightarrow> number \<Rightarrow> number" where
  "divide_number NaN y = NaN"
| "divide_number x NaN = NaN"
| "divide_number (Num a) (Num b) = (if b = 0 then inf_of_sign a else Num (a / b))"
| "divide_number (Num a) y = Num 0"
| "divide_number x (Num b) = inf_of_sign (sign_of x * (if b < 0 then - 1 else 1))"
| "divide_number x y = NaN"

definition inverse_number :: "number \<Rightarrow> number" where
  "inverse_number x = divide (Num 1) x"

fun less_number :: "number \<Rightarrow> number \<Rightarrow> bool" where
  "less_number NaN y = False"
| "less_number x NaN = False"
| "less_number (Num a) (Num b) = (a < b)"
| "less_number x NegInfinity = False"
| "less_number Infinity y = False"
| "less_number x y = True"

definition less_eq_number :: "number \<Rightarrow> number \<Rightarrow> bool" where
  "less_eq_number x y = (x < y \<or> (x = y \<and> x \<noteq> NaN))"

instance ..

end

instance number :: semigroup_add
proof
  fix a b c :: number
  show "a + b + c = a + (b + c)"
    by (cases a; cases b; cases c) simp_all
qed

instance number :: numeral ..

instance number :: power ..

text \<open>The functions of JavaScript's \<open>Math\<close> object that the program calls.\<close>

fun Math_sqrt :: "number \<Rightarrow> number" where
  "Math_sqrt (Num a) = (if a < 0 then NaN else Num (sqrt a))"
| "Math_sqrt Infinity = Infinity"
| "Math_sqrt x = NaN"

fun Math_sin :: "number \<Rightarrow> number" where
  "Math_sin (Num a) = Num (sin a)"
| "Math_sin x = NaN"

fun Math_cos :: "number \<Rightarrow> number" where
  "Math_cos (Num a) = Num (cos a)"
| "Math_cos x = NaN"

fun Math_abs :: "number \<Rightarrow> number" where
  "Math_abs (Num a) = Num \<bar>a\<bar>"
| "Math_abs NaN = NaN"
| "Math_abs x = Infinity"

fun Math_floor :: "number \<Rightarrow> number" where
  "Math_floor (Num a) = Num (of_int \<lfloor>a\<rfloor>)"
| "Math_floor x = x"

text \<open>
  \<open>Math.atan2(y, x)\<close>: the angle of the point \<open>(x, y)\<close>, in \<open>(-\<pi>, \<pi>]\<close>; on finite
  arguments it is \<open>atan2 y x\<close>.
\<close>

definition atan2 :: "real \<Rightarrow> real \<Rightarrow> real" where
  "atan2 b a =
     (if 0 < a then arctan (b / a)
      else if a < 0 then (if 0 \<le> b then arctan (b / a) + pi else arctan (b / a) - pi)
      else if 0 < b then pi / 2
      else if b < 0 then - (pi / 2)
      else 0)"

fun Math_atan2 :: "number \<Rightarrow> number \<Rightarrow> number" where
  "Math_atan2 NaN x = NaN"
| "Math_atan2 y NaN = NaN"
| "Math_atan2 (Num b) (Num a) = Num (atan2 b a)"
| "Math_atan2 (Num b) Infinity = Num 0"
| "Math_atan2 (Num b) NegInfinity = Num (if 0 \<le> b then pi else - pi)"
| "Math_atan2 Infinity (Num a) = Num (pi / 2)"
| "Math_atan2 NegInfinity (Num a) = Num (- (pi / 2))"
| "Math_atan2 Infinity Infinity = Num (pi / 4)"
| "Math_atan2 Infinity NegInfinity = Num (3 * pi / 4)"
| "Math_atan2 NegInfinity Infinity = Num (- (pi / 4))"
| "Math_atan2 NegInfinity NegInfinity = Num (- (3 * pi / 4))"

subsection \<open>Rounding to binary64 and to float32\<close>

text \<open>
  \<open>rne\<close> rounds a real to the nearest integer, a tie to the even one. \<open>expo x\<close> is the
  binary exponent of \<open>x\<close>, and \<open>ulp p emin x\<close> the distance of the neighbours of \<open>x\<close>
  in the format of precision \<open>p\<close> whose least normal exponent is \<open>emin\<close>.
  \<open>round_to p emin\<close> is rounding to nearest in that format: binary64 is \<open>p = 53\<close>,
  \<open>emin = -1022\<close>, float32 is \<open>p = 24\<close>, \<open>emin = -126\<close>. A result whose magnitude
  reaches \<open>2 ^ 1024\<close> (for float32, \<open>2 ^ 128\<close>) overflows to an infinity.
\<close>

definition rne :: "real \<Rightarrow> int" where
  "rne x =
     (let f = \<lfloor>x\<rfloor>; r = x - of_int f
      in if r < 1 / 2 then f else if 1 / 2 < r then f + 1 else if even f then f else f + 1)"

definition expo :: "real \<Rightarrow> int" where
  "expo x = \<lfloor>log 2 \<bar>x\<bar>\<rfloor>"

definition ulp :: "nat \<Rightarrow> int \<Rightarrow> real \<Rightarrow> real" where
  "ulp p emin x = 2 powi (max emin (expo x) - int p + 1)"

definition round_to :: "nat \<Rightarrow> int \<Rightarrow> real \<Rightarrow> real" where
  "round_to p emin x = (if x = 0 then 0 else ulp p emin x * of_int (rne (x / ulp p emin x)))"

definition fl64 :: "real \<Rightarrow> real" where
  "fl64 x = round_to 53 (- 1022) x"

definition fl32 :: "real \<Rightarrow> real" where
  "fl32 x = round_to 24 (- 126) x"

definition overflow64 :: real where
  "overflow64 = 2 powi 1024"

definition overflow32 :: real where
  "overflow32 = 2 powi 128"

text \<open>
  The least positive double and the least positive normal double. A real is a finite
  double when rounding to binary64 leaves it as it is and it is below the overflow
  threshold.
\<close>

definition minDouble :: real where
  "minDouble = 2 powi (- 1074)"

definition minNormal :: real where
  "minNormal = 2 powi (- 1022)"

definition is_double :: "real \<Rightarrow> bool" where
  "is_double w \<longleftrightarrow> fl64 w = w \<and> \<bar>w\<bar> < overflow64"

text \<open>The rounding of the exact result of a double operation.\<close>

fun toDouble :: "number \<Rightarrow> number" where
  "toDouble (Num a) = (if overflow64 \<le> \<bar>fl64 a\<bar> then inf_of_sign (fl64 a) else Num (fl64 a))"
| "toDouble x = x"

text \<open>\<open>Math.fround\<close>: the conversion that a \<open>Float32Array\<close> applies to what it stores.\<close>

fun Math_fround :: "number \<Rightarrow> number" where
  "Math_fround (Num a) = (if overflow32 \<le> \<bar>fl32 a\<bar> then inf_of_sign (fl32 a) else Num (fl32 a))"
| "Math_fround x = x"

text \<open>
  The arrays of the field are of type \<open>Float32Array\<close>. Such an array is modelled by the
  list of the numbers assigned to its elements, and \<open>at_index\<close> reads an element as the
  array returns it: converted to float32. (The initialisation converts already when it
  stores; the frame loop keeps the numbers it computes, so that \<open>positions\<close> lists the
  computed targets and \<open>at_index\<close> gives what the array holds of them.) Out of range
  the result of a read is \<open>undefined\<close>, which every arithmetic operation turns into
  \<open>NaN\<close>. Writing a typed array out of range does nothing, as \<open>xs[i := v]\<close> does.
\<close>

definition at_index :: "number list \<Rightarrow> nat \<Rightarrow> number" where
  "at_index xs i = (if i < length xs then Math_fround (xs ! i) else NaN)"

section \<open>utils/math\<close>

text \<open>\<open>lerp\<close>, each operation rounded to binary64.\<close>

definition lerp :: "number \<Rightarrow> number \<Rightarrow> number \<Rightarrow> number" where
  "lerp a b t =
     (let a = toDouble a; b = toDouble b; t = toDouble t
      in toDouble (a + toDouble (toDouble (b - a) * t)))"

definition randomRange :: "number \<Rightarrow> number \<Rightarrow> number \<Rightarrow> number" where
  \<comment> \<open>the first argument is the value that the call of \<open>Math.random()\<close> returns\<close>
  "randomRange random minv maxv = random * (maxv - minv) + minv"

text \<open>
  \<open>THREE.MathUtils.lerp(x, y, t)\<close> of the three.js library: \<open>(1 - t) * x + t * y\<close>.
  The arguments are binary64 numbers (the literal \<open>0.05\<close> of the call in the frame
  callback is the double nearest to it), and each operation is rounded to binary64.
\<close>

definition MathUtils_lerp :: "number \<Rightarrow> number \<Rightarrow> number \<Rightarrow> number" where
  "MathUtils_lerp x y t =
     (let x = toDouble x; y = toDouble y; t = toDouble t
      in toDouble (toDouble (toDouble (1 - t) * x) + toDouble (t * y)))"

text \<open>
  The double nearest to \<open>0.05\<close>, and the double that \<open>1 - 0.05\<close> evaluates to
  (lemmas \<open>smoothing_double\<close> and \<open>retention_double\<close>).
\<close>

definition smoothing :: real where
  "smoothing = 3602879701896397 / 2 ^ 56"

definition retention :: real where
  "retention = 4278419646001971 / 2 ^ 52"

section \<open>The particle field (components/StarryField)\<close>

definition PARTICLE_COUNT :: nat where
  "PARTICLE_COUNT = 16000"

record InteractionPoint =
  p_x :: number
  p_y :: number
  p_vx :: number
  p_vy :: number

record HandInfluence =
  h_x :: number
  h_y :: number
  h_vx :: number
  h_vy :: number
  h_active :: bool

record Viewport =
  width :: number
  height :: number

text \<open>An entry of \<open>activePoints\<close>: \<open>{ x, y, v }\<close>.\<close>

record ActivePoint =
  a_x :: number
  a_y :: number
  a_v :: number

text \<open>
  A JavaScript \<open>Map\<close> with numeric keys keeps its entries in insertion order; it is an
  association list with distinct keys. \<open>set\<close> on a key that is present replaces the
  value in place, on a new key it appends the entry.
\<close>

type_synonym 'v js_map = "(int \<times> 'v) list"

fun map_get :: "'v js_map \<Rightarrow> int \<Rightarrow> 'v option" where
  "map_get [] k = None"
| "map_get ((k', v) # m) k = (if k' = k then Some v else map_get m k)"

fun map_set :: "'v js_map \<Rightarrow> int \<Rightarrow> 'v \<Rightarrow> 'v js_map" where
  "map_set [] k v = [(k, v)]"
| "map_set ((k', v') # m) k v = (if k' = k then (k, v) # m else (k', v') # map_set m k v)"

definition map_delete :: "'v js_map \<Rightarrow> int \<Rightarrow> 'v js_map" where
  "map_delete m k = filter (\<lambda>kv. fst kv \<noteq> k) m"

definition map_values :: "'v js_map \<Rightarrow> 'v list" where
  "map_values m = map snd m"

text \<open>
  The state that the frame callback reads and writes: the six attribute arrays made by
  the initialisation, the \<open>uTime\<close> uniform, the \<open>windVelocity\<close> ref, and of the mesh
  the flag \<open>needsUpdate\<close> of the position attribute and \<open>rotation.z\<close>.
\<close>

record StarryField =
  positions :: "number list"
  initialPositions :: "number list"
  colors :: "number list"
  sizes :: "number list"
  phases :: "number list"
  angles :: "number list"
  uTime :: number
  windVelocity :: number
  needsUpdate :: bool
  rotation_z :: number

text \<open>The snapshot of the interaction points, scaled to the viewport.\<close>

definition activePoints :: "Viewport \<Rightarrow> InteractionPoint js_map \<Rightarrow> ActivePoint list" where
  "activePoints viewport interactionPoints =
     map (\<lambda>p. \<lparr> a_x = p_x p * width viewport / 2,
               a_y = p_y p * height viewport / 2,
               a_v = Math_sqrt (p_vx p * p_vx p + p_vy p * p_vy p) \<rparr>)
         (map_values interactionPoints)"

text \<open>The body of \<open>activePoints.forEach\<close>: one point pushes the target away.\<close>

definition applyPoint :: "number \<times> number \<Rightarrow> ActivePoint \<Rightarrow> number \<times> number" where
  "applyPoint target p =
     (let targetX = fst target;
          targetY = snd target;
          dx = targetX - a_x p;
          dy = targetY - a_y p;
          mouseDist = Math_sqrt (dx * dx + dy * dy);
          influenceRadius = 4 + a_v p * 10
      in if mouseDist < influenceRadius
         then (let factor = (influenceRadius - mouseDist) / influenceRadius
               in (targetX + dx * factor * (0.3 + a_v p * 2),
                   targetY + dy * factor * (0.3 + a_v p * 2)))
         else (targetX, targetY))"

text \<open>
  The target of the rotation alone, before the interaction points and the wind
  (the first half of the loop body).
\<close>

definition orbitTarget :: "number \<Rightarrow> number list \<Rightarrow> nat \<Rightarrow> number \<times> number \<times> number" where
  "orbitTarget time initials i =
     (let i3 = i * 3;
          x = at_index initials i3;
          y = at_index initials (i3 + 1);
          z = at_index initials (i3 + 2);
          dist = Math_sqrt (x * x + y * y);
          angle = Math_atan2 y x;
          vortex = Math_sin (time * 0.1 + dist * 0.3) * 0.5;
          rotationSpeed = (0.04 + vortex * 0.02) * (1 / (dist * 0.1 + 1));
          currentAngle = angle + time * rotationSpeed;
          targetX = Math_cos currentAngle * dist;
          targetY = Math_sin currentAngle * dist;
          targetZ = z + Math_sin (time * 0.5 + dist * 0.5) * 0.3
      in (targetX, targetY, targetZ))"

text \<open>The distance of particle \<open>i\<close> from the axis, as the loop body computes it.\<close>

definition distOf :: "number list \<Rightarrow> nat \<Rightarrow> number" where
  "distOf initials i =
     (let i3 = i * 3;
          x = at_index initials i3;
          y = at_index initials (i3 + 1)
      in Math_sqrt (x * x + y * y))"

text \<open>The whole loop body: the three numbers written for particle \<open>i\<close>.\<close>

definition particleTarget ::
  "number \<Rightarrow> ActivePoint list \<Rightarrow> number \<Rightarrow> number list \<Rightarrow> nat \<Rightarrow> number \<times> number \<times> number" where
  "particleTarget time aps wind initials i =
     (let dist = distOf initials i;
          (targetX, targetY, targetZ) = orbitTarget time initials i;
          (targetX, targetY) = foldl applyPoint (targetX, targetY) aps;
          targetX = targetX + wind * (1 - dist / 20)
      in (targetX, targetY, targetZ))"

text \<open>The loop \<open>for (let i = 0; i < PARTICLE_COUNT; i++)\<close>, for a count \<open>n\<close>.\<close>

function particleLoop ::
  "nat \<Rightarrow> nat \<Rightarrow> number \<Rightarrow> ActivePoint list \<Rightarrow> number \<Rightarrow> number list \<Rightarrow> number list \<Rightarrow> number list" where
  "particleLoop n i time aps wind initials arr =
     (if i < n
      then (let i3 = i * 3;
                (targetX, targetY, targetZ) = particleTarget time aps wind initials i
            in particleLoop n (Suc i) time aps wind initials
                 (arr[i3 := targetX, i3 + 1 := targetY, i3 + 2 := targetZ]))
      else arr)"
  by pat_completeness auto
termination
  by (relation "measure (\<lambda>(n, i, time, aps, wind, initials, arr). n - i)") auto

definition targetWindOf :: "HandInfluence \<Rightarrow> number" where
  "targetWindOf handInfluence =
     (if h_active handInfluence then h_vx handInfluence * - 15 else 0)"

text \<open>
  The callback of \<open>useFrame\<close>, for a field of \<open>n\<close> particles; the program runs it
  with \<open>n = PARTICLE_COUNT\<close>. \<open>time\<close> is the elapsed time of the clock.
\<close>

definition useFrame ::
  "nat \<Rightarrow> number \<Rightarrow> Viewport \<Rightarrow> InteractionPoint js_map \<Rightarrow> HandInfluence \<Rightarrow> StarryField \<Rightarrow> StarryField" where
  "useFrame n time viewport interactionPoints handInfluence s =
     (let aps = activePoints viewport interactionPoints;
          targetWind = targetWindOf handInfluence;
          wind = MathUtils_lerp (windVelocity s) targetWind 0.05;
          arr = particleLoop n 0 time aps wind (initialPositions s) (positions s)
      in s\<lparr> uTime := time,
            windVelocity := wind,
            positions := arr,
            needsUpdate := True,
            rotation_z := rotation_z s + (0.001 + Math_abs wind * 0.005) \<rparr>)"

text \<open>Successive frames: one entry of the list per call of the callback.\<close>

type_synonym frame_input = "number \<times> Viewport \<times> InteractionPoint js_map \<times> HandInfluence"

fun runFrames :: "nat \<Rightarrow> frame_input list \<Rightarrow> StarryField \<Rightarrow> StarryField" where
  "runFrames n [] s = s"
| "runFrames n ((time, viewport, interactionPoints, handInfluence) # fs) s =
     runFrames n fs (useFrame n time viewport interactionPoints handInfluence s)"

section \<open>The initialisation of the particles\<close>

text \<open>
  \<open>Math.random()\<close> is modelled by the sequence \<open>random\<close> of the values that its
  successive calls return. Every pass of the initialisation loop calls it seven times, so
  pass \<open>i\<close> reads \<open>random (7 * i)\<close> to \<open>random (7 * i + 6)\<close>, in the order of the source.
\<close>

definition Math_PI :: number where
  "Math_PI = Num pi"

text \<open>A \<open>THREE.Color\<close>; the palette is the list of the five colours of the source.\<close>

record Color =
  c_r :: number
  c_g :: number
  c_b :: number

text \<open>
  \<open>palette[k]\<close> for a number \<open>k\<close>: \<open>None\<close> stands for \<open>undefined\<close>, on which
  the read of \<open>color.r\<close> throws a TypeError.
\<close>

fun array_get :: "'a list \<Rightarrow> number \<Rightarrow> 'a option" where
  "array_get xs (Num a) =
     (if 0 \<le> a \<and> a = of_int \<lfloor>a\<rfloor> \<and> nat \<lfloor>a\<rfloor> < length xs then Some (xs ! nat \<lfloor>a\<rfloor>) else None)"
| "array_get xs k = None"

record ParticleArrays =
  pos :: "number list"
  initPos :: "number list"
  cols :: "number list"
  szs :: "number list"
  phs :: "number list"
  agls :: "number list"

text \<open>
  The position computed for particle \<open>i\<close> from the first three draws of its pass; the
  loop stores it into the arrays, which convert it to float32.
\<close>

definition initPosition :: "(nat \<Rightarrow> real) \<Rightarrow> nat \<Rightarrow> number \<times> number \<times> number" where
  "initPosition random i =
     (let angle = Num (random (7 * i)) * Math_PI * 2;
          radius = randomRange (Num (random (7 * i + 1))) 1 15;
          x = Math_cos angle * radius;
          y = Math_sin angle * radius;
          z = (Num (random (7 * i + 2)) - 0.5) * 4
      in (x, y, z))"

function initLoop ::
  "nat \<Rightarrow> nat \<Rightarrow> (nat \<Rightarrow> real) \<Rightarrow> Color list \<Rightarrow> ParticleArrays \<Rightarrow> ParticleArrays option" where
  "initLoop n i random palette a =
     (if i < n
      then (let (x, y, z) = initPosition random i
            in case array_get palette
                      (Math_floor (Num (random (7 * i + 3)) * Num (real (length palette)))) of
                 None \<Rightarrow> None
               | Some color \<Rightarrow>
                   initLoop n (Suc i) random palette
                     (a\<lparr> pos := (pos a)[i * 3 := Math_fround x, i * 3 + 1 := Math_fround y,
                                        i * 3 + 2 := Math_fround z],
                         initPos := (initPos a)[i * 3 := Math_fround x, i * 3 + 1 := Math_fround y,
                                                i * 3 + 2 := Math_fround z],
                         cols := (cols a)[i * 3 := Math_fround (c_r color),
                                          i * 3 + 1 := Math_fround (c_g color),
                                          i * 3 + 2 := Math_fround (c_b color)],
                         szs := (szs a)[i := Math_fround
                                             (randomRange (Num (random (7 * i + 4))) 0.08 0.25)],
                         phs := (phs a)[i := Math_fround (Num (random (7 * i + 5)) * 10)],
                         agls := (agls a)[i := Math_fround (Num (random (7 * i + 6)) * Math_PI)] \<rparr>))
      else Some a)"
  by pat_completeness auto
termination
  by (relation "measure (\<lambda>(n, i, random, palette, a). n - i)") auto

text \<open>The arrays are allocated with \<open>new Float32Array\<close>, which fills them with zeros.\<close>

definition newArrays :: "nat \<Rightarrow> ParticleArrays" where
  "newArrays n =
     \<lparr> pos = replicate (n * 3) 0, initPos = replicate (n * 3) 0, cols = replicate (n * 3) 0,
       szs = replicate n 0, phs = replicate n 0, agls = replicate n 0 \<rparr>"

definition initParticles :: "nat \<Rightarrow> (nat \<Rightarrow> real) \<Rightarrow> Color list \<Rightarrow> ParticleArrays option" where
  "initParticles n random palette = initLoop n 0 random palette (newArrays n)"

text \<open>The field as the component mounts it: \<open>windVelocity\<close> and \<open>uTime\<close> start at 0.\<close>

definition mountField :: "ParticleArrays \<Rightarrow> StarryField" where
  "mountField a =
     \<lparr> positions = pos a, initialPositions = initPos a, colors = cols a, sizes = szs a,
       phases = phs a, angles = agls a, uTime = 0, windVelocity = 0, needsUpdate = False,
       rotation_z = 0 \<rparr>"

section \<open>The pointer handlers (App)\<close>

record PointerEvent =
  pointerId :: int
  clientX :: number
  clientY :: number

record Window =
  innerWidth :: number
  innerHeight :: number

record LastPosition =
  l_x :: number
  l_y :: number

text \<open>The two maps that the handlers keep: the points reported to the field, and the
  last raw position of every pointer.\<close>

record Pointers =
  interactionPoints :: "InteractionPoint js_map"
  lastPointerPositions :: "LastPosition js_map"

text \<open>Both maps are empty when the component mounts (\<open>new Map()\<close>).\<close>

definition pointers0 :: Pointers where
  "pointers0 = \<lparr> interactionPoints = [], lastPointerPositions = [] \<rparr>"

definition handlePointerDown :: "Window \<Rightarrow> PointerEvent \<Rightarrow> Pointers \<Rightarrow> Pointers" where
  "handlePointerDown window e s =
     s\<lparr> lastPointerPositions :=
          map_set (lastPointerPositions s) (pointerId e)
            \<lparr> l_x = (clientX e / innerWidth window) * 2 - 1,
              l_y = - (clientY e / innerHeight window) * 2 + 1 \<rparr>,
        interactionPoints :=
          map_set (interactionPoints s) (pointerId e)
            \<lparr> p_x = (clientX e / innerWidth window) * 2 - 1,
              p_y = - (clientY e / innerHeight window) * 2 + 1,
              p_vx = 0,
              p_vy = 0 \<rparr> \<rparr>"

definition handlePointerMove :: "Window \<Rightarrow> PointerEvent \<Rightarrow> Pointers \<Rightarrow> Pointers" where
  "handlePointerMove window e s =
     (let currentX = (clientX e / innerWidth window) * 2 - 1;
          currentY = - (clientY e / innerHeight window) * 2 + 1
      in case map_get (lastPointerPositions s) (pointerId e) of
           Some lastPos \<Rightarrow>
             s\<lparr> interactionPoints :=
                  map_set (interactionPoints s) (pointerId e)
                    \<lparr> p_x = currentX, p_y = currentY,
                      p_vx = currentX - l_x lastPos, p_vy = currentY - l_y lastPos \<rparr>,
                lastPointerPositions :=
                  map_set (lastPointerPositions s) (pointerId e)
                    \<lparr> l_x = currentX, l_y = currentY \<rparr> \<rparr>
         | None \<Rightarrow> s)"

definition handlePointerUp :: "PointerEvent \<Rightarrow> Pointers \<Rightarrow> Pointers" where
  "handlePointerUp e s =
     s\<lparr> interactionPoints := map_delete (interactionPoints s) (pointerId e),
        lastPointerPositions := map_delete (lastPointerPositions s) (pointerId e) \<rparr>"

text \<open>The hand state before any hand is seen: \<open>{ x: 0, y: 0, vx: 0, vy: 0, active: false }\<close>.\<close>

definition handState0 :: HandInfluence where
  "handState0 = \<lparr> h_x = 0, h_y = 0, h_vx = 0, h_vy = 0, h_active = False \<rparr>"

text \<open>The \<open>k\<close>-th of the three numbers of a particle (\<open>k = 0, 1, 2\<close>).\<close>

definition coord :: "number \<times> number \<times> number \<Rightarrow> nat \<Rightarrow> number" where
  "coord t k = (if k = 0 then fst t else if k = 1 then fst (snd t) else snd (snd t))"

text \<open>
  Fields with given positions, for the examples: \<open>arraysAt ps\<close> holds \<open>ps\<close> as the
  positions and the initial positions. The field of the end-to-end scenario has three
  particles at \<open>(1,0,0)\<close>, \<open>(0,2,0)\<close> and \<open>(-3,0,1)\<close>, mounted as the component mounts
  its arrays.
\<close>

definition arraysAt :: "number list \<Rightarrow> ParticleArrays" where
  "arraysAt ps =
     \<lparr> pos = ps, initPos = ps, cols = replicate (length ps) (Num 1),
       szs = replicate (length ps div 3) (Num 0.1), phs = replicate (length ps div 3) (Num 0),
       agls = replicate (length ps div 3) (Num 0) \<rparr>"

definition scenarioArrays :: ParticleArrays where
  "scenarioArrays =
     arraysAt [Num 1, Num 0, Num 0, Num 0, Num 2, Num 0, Num (- 3), Num 0, Num 1]"

definition scenario :: StarryField where
  "scenario = mountField scenarioArrays"

text \<open>
  The floating-point tolerance of the examples: a number is within the tolerance of a real
  when it is finite and differs from it by at most \<open>1e-6\<close>.
\<close>

definition within_tolerance :: "number \<Rightarrow> real \<Rightarrow> bool" where
  "within_tolerance x e = (case x of Num v \<Rightarrow> \<bar>v - e\<bar> \<le> 1 / 1000000 | _ \<Rightarrow> False)"

definition unitViewport :: Viewport where
  "unitViewport = \<lparr> width = Num 1, height = Num 1 \<rparr>"

text \<open>
  More fields and inputs for the examples: one particle at distance 40 from the axis, a
  hand that moves to the left, a hand signal whose velocity is \<open>NaN\<close> (active and
  not), and an interaction point that rests at the origin.
\<close>

definition farField :: StarryField where
  "farField = mountField (arraysAt [Num 40, Num 0, Num 0])"

definition wavingHand :: HandInfluence where
  "wavingHand = \<lparr> h_x = Num 0, h_y = Num 0, h_vx = Num (- 1), h_vy = Num 0, h_active = True \<rparr>"

definition nanHand :: HandInfluence where
  "nanHand = \<lparr> h_x = Num 0, h_y = Num 0, h_vx = NaN, h_vy = Num 0, h_active = True \<rparr>"

definition idleNanHand :: HandInfluence where
  "idleNanHand = \<lparr> h_x = Num 0, h_y = Num 0, h_vx = NaN, h_vy = Num 0, h_active = False \<rparr>"

definition originPoint :: InteractionPoint where
  "originPoint = \<lparr> p_x = Num 0, p_y = Num 0, p_vx = Num 0, p_vy = Num 0 \<rparr>"

text \<open>A window of 200 by 100 pixels and two events of the pointer 7, for the examples.\<close>

definition window0 :: Window where
  "window0 = \<lparr> innerWidth = Num 200, innerHeight = Num 100 \<rparr>"

definition eventA :: PointerEvent where
  "eventA = \<lparr> pointerId = 7, clientX = Num 100, clientY = Num 50 \<rparr>"

definition eventB :: PointerEvent where
  "eventB = \<lparr> pointerId = 7, clientX = Num 150, clientY = Num 25 \<rparr>"

text \<open>A palette of five whites and a random source that always returns 0.5, for the examples.\<close>

definition whitePalette :: "Color list" where
  "whitePalette = replicate 5 \<lparr> c_r = Num 1, c_g = Num 1, c_b = Num 1 \<rparr>"

definition halfRandom :: "nat \<Rightarrow> real" where
  "halfRandom k = 1 / 2"

text \<open>
  A random source whose first pass draws 0 for the angle and \<open>1 - 2 powi (- 27)\<close>, a
  double just below 1, for the radius and for the depth.
\<close>

definition cornerRandom :: "nat \<Rightarrow> real" where
  "cornerRandom k = (if k = 0 then 0 else if k = 1 \<or> k = 2 then 1 - 2 powi (- 27) else 1 / 2)"

text \<open>The radius and the depth that the pass computes from these draws.\<close>

definition nearFifteen :: real where
  "nearFifteen = (1 - 2 powi (- 27)) * 14 + 1"

definition nearTwo :: real where
  "nearTwo = (1 - 2 powi (- 27) - 1 / 2) * 4"

text \<open>
  Fields without particles whose wind is 1 and \<open>9 * minDouble\<close> (about 4.4e-323), and
  a field of one particle at the distance \<open>4 - 2 powi (- 22)\<close> from the axis, the largest
  float32 below 4.
\<close>

definition unitWindField :: StarryField where
  "unitWindField = (mountField (newArrays 0))\<lparr> windVelocity := Num 1 \<rparr>"

definition stalledField :: StarryField where
  "stalledField = (mountField (newArrays 0))\<lparr> windVelocity := Num (9 * minDouble) \<rparr>"

definition nearFour :: real where
  "nearFour = 4 - 2 powi (- 22)"

definition nearFourField :: StarryField where
  "nearFourField = mountField (arraysAt [Num nearFour, Num 0, Num 0])"

text \<open>
  A random source from which the initialisation makes that particle: the angle 0, a draw
  for the radius that gives \<open>1 + 14 * 7190235 / 2 ^ 25\<close>, about 3.99999982, whose float32
  is \<open>nearFour\<close>, and the depth 0.
\<close>

definition nearFourRandom :: "nat \<Rightarrow> real" where
  "nearFourRandom k = (if k = 0 then 0 else if k = 1 then 7190235 / 2 ^ 25 else 1 / 2)"

section \<open>Arithmetic on finite numbers\<close>

lemma numeral_number [simp]: "(numeral k :: number) = Num (numeral k)"
  by (induction k) (simp_all only: numeral.simps one_number_def plus_number.simps)

lemma power_number [simp]: "(Num a) ^ k = Num (a ^ k)"
  by (induction k) (simp_all add: one_number_def)

lemma minus_Num [simp]: "Num a - Num b = Num (a - b)"
  by (simp add: minus_number_def)

lemma zero_Num [simp]: "(0 :: number) = Num 0"
  by (simp add: zero_number_def)

lemma one_Num [simp]: "(1 :: number) = Num 1"
  by (simp add: one_number_def)

declare particleLoop.simps [simp del]

declare initLoop.simps [simp del]

lemma windVelocity_useFrame:
  "windVelocity (useFrame n time viewport ips hand s) =
     MathUtils_lerp (windVelocity s) (targetWindOf hand) 0.05"
  by (simp add: useFrame_def Let_def)

section \<open>Rounding\<close>

lemma rne_cases: "rne x = \<lfloor>x\<rfloor> \<or> rne x = \<lfloor>x\<rfloor> + 1"
  by (simp add: rne_def Let_def)

lemma rne_err: "\<bar>of_int (rne x) - x\<bar> \<le> 1 / 2"
proof -
  have "of_int \<lfloor>x\<rfloor> \<le> x" "x < of_int \<lfloor>x\<rfloor> + 1" by linarith+
  then show ?thesis by (auto simp: rne_def Let_def)
qed

lemma rne_unique:
  assumes "\<bar>x - of_int n\<bar> < 1 / 2"
  shows "rne x = n"
proof -
  have "\<bar>of_int (rne x) - x\<bar> \<le> 1 / 2" by (rule rne_err)
  with assms have "\<bar>(of_int (rne x) :: real) - of_int n\<bar> < 1" by linarith
  then have "\<bar>rne x - n\<bar> < 1"
    by (metis of_int_1 of_int_abs of_int_diff of_int_less_iff)
  then show ?thesis by simp
qed

lemma rne_of_int [simp]: "rne (of_int n) = n"
  by (rule rne_unique) simp

lemma rne_le_int:
  assumes "x \<le> of_int n"
  shows "rne x \<le> n"
proof (cases "x = of_int \<lfloor>x\<rfloor>")
  case True
  then have "rne x = \<lfloor>x\<rfloor>" by (metis rne_of_int)
  moreover from assms have "\<lfloor>x\<rfloor> \<le> n" by linarith
  ultimately show ?thesis by simp
next
  case False
  then have "of_int \<lfloor>x\<rfloor> < x" by linarith
  with assms have "\<lfloor>x\<rfloor> < n" by linarith
  with rne_cases [of x] show ?thesis by linarith
qed

lemma rne_ge_int:
  assumes "of_int n \<le> x"
  shows "n \<le> rne x"
proof -
  from assms have "n \<le> \<lfloor>x\<rfloor>" by linarith
  with rne_cases [of x] show ?thesis by linarith
qed

lemma rne_abs_le:
  assumes "\<bar>x\<bar> \<le> of_int N"
  shows "\<bar>rne x\<bar> \<le> N"
proof -
  from assms have "x \<le> of_int N" by linarith
  then have a: "rne x \<le> N" by (rule rne_le_int)
  from assms have "of_int (- N) \<le> x" by simp
  then have "- N \<le> rne x" by (rule rne_ge_int)
  with a show ?thesis by linarith
qed

lemma powr_powi: "2 powr (of_int k) = (2 :: real) powi k"
  by (auto simp: powr_real_of_int power_int_def power_one_over inverse_eq_divide)

lemma expo_bounds:
  assumes "x \<noteq> 0"
  shows "2 powi (expo x) \<le> \<bar>x\<bar>" "\<bar>x\<bar> < 2 powi (expo x + 1)"
proof -
  have "0 < \<bar>x\<bar>" using assms by simp
  then have "2 powr (of_int (expo x)) \<le> \<bar>x\<bar> \<and> \<bar>x\<bar> < 2 powr (of_int (expo x + 1))"
    using floor_log_eq_powr_iff [of "\<bar>x\<bar>" 2 "expo x"] by (simp add: expo_def)
  then show "2 powi (expo x) \<le> \<bar>x\<bar>" "\<bar>x\<bar> < 2 powi (expo x + 1)"
    by (simp_all only: powr_powi)
qed

lemma expo_unique:
  assumes "2 powi k \<le> \<bar>x\<bar>" "\<bar>x\<bar> < 2 powi (k + 1)"
  shows "expo x = k"
proof -
  have "0 < (2 :: real) powi k" by simp
  with assms(1) have "0 < \<bar>x\<bar>" by linarith
  moreover have "2 powr (of_int k) \<le> \<bar>x\<bar> \<and> \<bar>x\<bar> < 2 powr (of_int (k + 1))"
    using assms by (simp only: powr_powi)
  ultimately show ?thesis
    using floor_log_eq_powr_iff [of "\<bar>x\<bar>" 2 k] by (simp add: expo_def)
qed

lemma expo_le:
  assumes "x \<noteq> 0" "\<bar>x\<bar> < 2 powi (k + 1)"
  shows "expo x \<le> k"
proof -
  have "(2 :: real) powi (expo x) < 2 powi (k + 1)"
    using expo_bounds(1) [OF assms(1)] assms(2) by linarith
  then have "expo x < k + 1"
    by (metis power_int_increasing not_le one_le_numeral)
  then show ?thesis by simp
qed

lemma expo_ge:
  assumes "2 powi k \<le> \<bar>x\<bar>"
  shows "k \<le> expo x"
proof -
  have "0 < (2 :: real) powi k" by simp
  with assms have "0 < \<bar>x\<bar>" by linarith
  then have "x \<noteq> 0" by simp
  then have "(2 :: real) powi k < 2 powi (expo x + 1)"
    using expo_bounds(2) [of x] assms by linarith
  then have "k < expo x + 1"
    by (metis power_int_increasing not_le one_le_numeral)
  then show ?thesis by simp
qed

lemma expo_mono:
  assumes "x \<noteq> 0" "\<bar>x\<bar> \<le> \<bar>y\<bar>"
  shows "expo x \<le> expo y"
proof -
  from assms have "y \<noteq> 0" by auto
  then have "\<bar>x\<bar> < 2 powi (expo y + 1)"
    using expo_bounds(2) [of y] assms(2) by linarith
  with assms(1) show ?thesis by (rule expo_le)
qed

lemma ulp_pos [simp]: "0 < ulp p emin x"
  by (simp add: ulp_def)

lemma ulp_nonzero [simp]: "ulp p emin x \<noteq> 0"
  using ulp_pos [of p emin x] by linarith

lemma ulp_nonneg [simp]: "0 \<le> ulp p emin x"
  using ulp_pos [of p emin x] by linarith

lemma round_to_zero [simp]: "round_to p emin 0 = 0"
  by (simp add: round_to_def)

lemma round_to_err: "\<bar>round_to p emin x - x\<bar> \<le> ulp p emin x / 2"
proof (cases "x = 0")
  case True
  then show ?thesis by simp
next
  case False
  let ?u = "ulp p emin x"
  have "round_to p emin x - x = ?u * (of_int (rne (x / ?u)) - x / ?u)"
    using False by (simp add: round_to_def algebra_simps)
  then have "\<bar>round_to p emin x - x\<bar> = ?u * \<bar>of_int (rne (x / ?u)) - x / ?u\<bar>"
    by (simp add: abs_mult)
  also have "\<dots> \<le> ?u * (1 / 2)"
    by (intro mult_left_mono rne_err) simp
  finally show ?thesis by simp
qed

lemma powi_split:
  assumes "j0 \<le> j"
  shows "(2 :: real) powi j = of_int (2 ^ nat (j - j0)) * 2 powi j0"
proof -
  have "(2 :: real) powi j = 2 powi ((j - j0) + j0)" by simp
  also have "\<dots> = 2 powi (j - j0) * 2 powi j0"
    by (rule power_int_add) simp
  also have "(2 :: real) powi (j - j0) = 2 ^ nat (j - j0)"
    using assms by (simp add: power_int_nonneg_exp)
  finally show ?thesis by simp
qed

lemma powi_div:
  assumes "j0 \<le> j"
  shows "(2 :: real) powi j / 2 powi j0 = of_int (2 ^ nat (j - j0))"
proof -
  have "(2 :: real) powi j / 2 powi j0 = 2 powi (j - j0)"
    by (simp add: power_int_diff)
  also have "\<dots> = 2 ^ nat (j - j0)"
    using assms by (simp add: power_int_nonneg_exp)
  finally show ?thesis by simp
qed

lemma ulp_le:
  assumes "x \<noteq> 0" "\<bar>x\<bar> < 2 powi (E + 1)" "emin \<le> E"
  shows "ulp p emin x \<le> 2 powi (E - int p + 1)"
proof -
  have "expo x \<le> E" using assms(1,2) by (rule expo_le)
  with assms(3) have "max emin (expo x) - int p + 1 \<le> E - int p + 1" by simp
  then show ?thesis
    unfolding ulp_def by (intro power_int_increasing) simp_all
qed

lemma round_to_int_multiple:
  assumes "x \<noteq> 0" "x / ulp p emin x = of_int q"
  shows "round_to p emin x = x"
proof -
  have "round_to p emin x = ulp p emin x * (x / ulp p emin x)"
    using assms by (simp add: round_to_def)
  then show ?thesis by simp
qed

lemma round_to_fix:
  assumes "\<bar>m\<bar> < 2 ^ p" "emin - int p + 1 \<le> k"
  shows "round_to p emin (of_int m * 2 powi k) = of_int m * 2 powi k"
proof (cases "m = 0")
  case True
  then show ?thesis by simp
next
  case False
  let ?x = "of_int m * (2 :: real) powi k"
  let ?j = "max emin (expo ?x) - int p + 1"
  have x0: "?x \<noteq> 0" using False by simp
  have "\<bar>?x\<bar> = of_int \<bar>m\<bar> * 2 powi k" by (simp add: abs_mult)
  also have "\<dots> < of_int (2 ^ p) * 2 powi k"
  proof (intro mult_strict_right_mono)
    show "(of_int \<bar>m\<bar> :: real) < of_int (2 ^ p)"
      using assms(1) by (simp only: of_int_less_iff)
  qed simp
  also have "\<dots> = 2 powi (int p + k)"
    by (simp add: power_int_add)
  finally have "\<bar>?x\<bar> < 2 powi ((int p + k - 1) + 1)" by simp
  with x0 have "expo ?x \<le> int p + k - 1" by (rule expo_le)
  with assms(2) have j: "?j \<le> k" by simp
  have "?x / ulp p emin ?x = of_int m * (2 powi k / 2 powi ?j)"
    by (simp add: ulp_def)
  also have "2 powi k / (2 :: real) powi ?j = of_int (2 ^ nat (k - ?j))"
    using j by (rule powi_div)
  finally have "?x / ulp p emin ?x = of_int (m * 2 ^ nat (k - ?j))" by simp
  with x0 show ?thesis by (rule round_to_int_multiple)
qed

lemma round_to_multiple:
  "\<exists>n. round_to p emin x = of_int n * 2 powi (max emin (expo x) - int p + 1)
       \<and> \<bar>n\<bar> \<le> 2 ^ p"
proof (cases "x = 0")
  case True
  then show ?thesis by (intro exI [of _ 0]) simp
next
  case False
  let ?u = "ulp p emin x"
  have "\<bar>x\<bar> < 2 powi (expo x + 1)" using False by (rule expo_bounds)
  also have "\<dots> \<le> 2 powi (max emin (expo x) + 1)"
    by (intro power_int_increasing) simp_all
  also have "\<dots> = 2 powi (int p) * ?u"
    unfolding ulp_def by (subst power_int_add [symmetric]) simp_all
  finally have "\<bar>x\<bar> / ?u < 2 ^ p"
    by (simp add: pos_divide_less_eq)
  then have "\<bar>x / ?u\<bar> \<le> of_int (2 ^ p)" by simp
  then have "\<bar>rne (x / ?u)\<bar> \<le> 2 ^ p" by (rule rne_abs_le)
  moreover have "round_to p emin x = of_int (rne (x / ?u)) * 2 powi (max emin (expo x) - int p + 1)"
    using False by (simp add: round_to_def ulp_def)
  ultimately show ?thesis by blast
qed

lemma round_to_grid:
  "\<exists>n. round_to p emin x = of_int n * 2 powi (emin - int p + 1)"
proof -
  from round_to_multiple [of p emin x] obtain n where
    n: "round_to p emin x = of_int n * 2 powi (max emin (expo x) - int p + 1)" by blast
  have "emin - int p + 1 \<le> max emin (expo x) - int p + 1" by simp
  from powi_split [OF this] n
  have "round_to p emin x
      = of_int (n * 2 ^ nat (max emin (expo x) - int p + 1 - (emin - int p + 1)))
        * 2 powi (emin - int p + 1)"
    by simp
  then show ?thesis by blast
qed

lemma round_to_idem:
  assumes "0 < p"
  shows "round_to p emin (round_to p emin x) = round_to p emin x"
proof -
  let ?j = "max emin (expo x) - int p + 1"
  from round_to_multiple [of p emin x] obtain n where
    n: "round_to p emin x = of_int n * 2 powi ?j" and b: "\<bar>n\<bar> \<le> 2 ^ p" by blast
  have j: "emin - int p + 1 \<le> ?j" by simp
  show ?thesis
  proof (cases "\<bar>n\<bar> < 2 ^ p")
    case True
    then show ?thesis unfolding n using j by (rule round_to_fix)
  next
    case False
    with b have e: "\<bar>n\<bar> = 2 ^ p" by simp
    obtain q where p: "p = Suc q" using assms by (cases p) auto
    define m :: int where "m = (if 0 \<le> n then 2 ^ q else - (2 ^ q))"
    have nm: "n = m * 2" using e by (auto simp: m_def p abs_if split: if_splits)
    have "(2 :: real) powi (?j + 1) = 2 powi ?j * 2"
      by (subst power_int_add) simp_all
    then have r: "of_int n * (2 :: real) powi ?j = of_int m * 2 powi (?j + 1)"
      by (simp add: nm)
    have "\<bar>m\<bar> < 2 ^ p" by (simp add: m_def p)
    moreover have "emin - int p + 1 \<le> ?j + 1" by simp
    ultimately show ?thesis unfolding n r by (rule round_to_fix)
  qed
qed

lemma round_to_abs_le:
  assumes "\<bar>x\<bar> \<le> of_int N * ulp p emin x"
  shows "\<bar>round_to p emin x\<bar> \<le> of_int N * ulp p emin x"
proof (cases "x = 0")
  case True
  with assms show ?thesis by simp
next
  case False
  let ?u = "ulp p emin x"
  have "\<bar>x / ?u\<bar> \<le> of_int N"
    using assms by (simp add: pos_divide_le_eq)
  then have "\<bar>rne (x / ?u)\<bar> \<le> N" by (rule rne_abs_le)
  then have "\<bar>of_int (rne (x / ?u)) :: real\<bar> \<le> of_int N"
    by (metis of_int_abs of_int_le_iff)
  then have "?u * \<bar>of_int (rne (x / ?u))\<bar> \<le> ?u * of_int N"
    by (intro mult_left_mono) simp_all
  then show ?thesis
    using False by (simp add: round_to_def abs_mult mult.commute)
qed

lemma round_to_le_pow2:
  assumes "\<bar>x\<bar> \<le> 2 powi m" "emin - int p + 1 \<le> m" "0 < p"
  shows "\<bar>round_to p emin x\<bar> \<le> 2 powi m"
proof (cases "x = 0")
  case True
  then show ?thesis by simp
next
  case False
  let ?j = "max emin (expo x) - int p + 1"
  have "(2 :: real) powi m < 2 powi (m + 1)"
    by (intro power_int_strict_increasing) simp_all
  with assms(1) have "\<bar>x\<bar> < 2 powi (m + 1)" by linarith
  with False have "expo x \<le> m" by (rule expo_le)
  with assms(2,3) have j: "?j \<le> m" by simp
  have s: "(2 :: real) powi m = of_int (2 ^ nat (m - ?j)) * ulp p emin x"
    unfolding ulp_def by (rule powi_split [OF j])
  from assms(1) have "\<bar>x\<bar> \<le> of_int (2 ^ nat (m - ?j)) * ulp p emin x"
    by (simp only: s [symmetric])
  then have "\<bar>round_to p emin x\<bar> \<le> of_int (2 ^ nat (m - ?j)) * ulp p emin x"
    by (rule round_to_abs_le)
  then show ?thesis by (simp only: s [symmetric])
qed

lemma round_to_eval:
  assumes "2 powi k \<le> \<bar>x\<bar>" "\<bar>x\<bar> < 2 powi (k + 1)" "emin \<le> k"
    and "\<bar>x / 2 powi (k - int p + 1) - of_int n\<bar> < 1 / 2"
  shows "round_to p emin x = of_int n * 2 powi (k - int p + 1)"
proof -
  have e: "expo x = k" using assms(1,2) by (rule expo_unique)
  have "0 < (2 :: real) powi k" by simp
  with assms(1) have "0 < \<bar>x\<bar>" by linarith
  then have x0: "x \<noteq> 0" by simp
  have u: "ulp p emin x = 2 powi (k - int p + 1)"
    using assms(3) by (simp add: ulp_def e max_def)
  have "rne (x / ulp p emin x) = n"
    unfolding u using assms(4) by (rule rne_unique)
  then show ?thesis using x0 by (simp add: round_to_def u)
qed

lemma round_to_eval_subnormal:
  assumes "x \<noteq> 0" "\<bar>x\<bar> < 2 powi emin"
    and "\<bar>x / 2 powi (emin - int p + 1) - of_int n\<bar> < 1 / 2"
  shows "round_to p emin x = of_int n * 2 powi (emin - int p + 1)"
proof -
  have "\<bar>x\<bar> < 2 powi ((emin - 1) + 1)" using assms(2) by simp
  with assms(1) have "expo x \<le> emin - 1" by (rule expo_le)
  then have u: "ulp p emin x = 2 powi (emin - int p + 1)"
    by (simp add: ulp_def max_def)
  have "rne (x / ulp p emin x) = n"
    unfolding u using assms(3) by (rule rne_unique)
  then show ?thesis using assms(1) by (simp add: round_to_def u)
qed

subsection \<open>Rounded numbers\<close>

lemma fl64_le_pow2:
  assumes "\<bar>a\<bar> \<le> 2 powi m" "- 1074 \<le> m"
  shows "\<bar>fl64 a\<bar> \<le> 2 powi m"
  unfolding fl64_def using assms by (intro round_to_le_pow2) simp_all

lemma fl32_le_pow2:
  assumes "\<bar>a\<bar> \<le> 2 powi m" "- 149 \<le> m"
  shows "\<bar>fl32 a\<bar> \<le> 2 powi m"
  unfolding fl32_def using assms by (intro round_to_le_pow2) simp_all

lemma toDouble_Num:
  assumes "\<bar>fl64 a\<bar> < overflow64"
  shows "toDouble (Num a) = Num (fl64 a)"
  using assms by simp

lemma Math_fround_Num:
  assumes "\<bar>fl32 a\<bar> < overflow32"
  shows "Math_fround (Num a) = Num (fl32 a)"
  using assms by simp

declare toDouble.simps(1) [simp del]

declare Math_fround.simps(1) [simp del]

lemma below_overflow64: "\<bar>x\<bar> \<le> 2 powi 64 \<Longrightarrow> \<bar>x\<bar> < overflow64"
proof -
  have "(2 :: real) powi 64 < 2 powi 1024"
    by (intro power_int_strict_increasing) simp_all
  then show "\<bar>x\<bar> \<le> 2 powi 64 \<Longrightarrow> \<bar>x\<bar> < overflow64"
    unfolding overflow64_def by linarith
qed

lemma below_overflow32: "\<bar>x\<bar> \<le> 2 powi 64 \<Longrightarrow> \<bar>x\<bar> < overflow32"
proof -
  have "(2 :: real) powi 64 < 2 powi 128"
    by (intro power_int_strict_increasing) simp_all
  then show "\<bar>x\<bar> \<le> 2 powi 64 \<Longrightarrow> \<bar>x\<bar> < overflow32"
    unfolding overflow32_def by linarith
qed

lemma toDouble_small:
  assumes "\<bar>a\<bar> \<le> 2 powi 64"
  shows "toDouble (Num a) = Num (fl64 a)"
  by (intro toDouble_Num below_overflow64 fl64_le_pow2 assms) simp

lemma Math_fround_small:
  assumes "\<bar>a\<bar> \<le> 2 powi 64"
  shows "Math_fround (Num a) = Num (fl32 a)"
  by (intro Math_fround_Num below_overflow32 fl32_le_pow2 assms) simp

lemma fl32_fix:
  assumes "\<bar>m\<bar> < 2 ^ 24" "- 149 \<le> k"
  shows "fl32 (of_int m * 2 powi k) = of_int m * 2 powi k"
  unfolding fl32_def using assms by (intro round_to_fix) simp_all

lemma fl64_fix:
  assumes "\<bar>m\<bar> < 2 ^ 53" "- 1074 \<le> k"
  shows "fl64 (of_int m * 2 powi k) = of_int m * 2 powi k"
  unfolding fl64_def using assms by (intro round_to_fix) simp_all

lemma Math_fround_int:
  assumes "\<bar>m\<bar> < 2 ^ 24"
  shows "Math_fround (Num (of_int m)) = Num (of_int m)"
proof -
  have f: "fl32 (of_int m) = of_int m"
    using fl32_fix [OF assms, of 0] by simp
  have "\<bar>of_int m :: real\<bar> \<le> 2 powi 64"
  proof -
    have "\<bar>of_int m :: real\<bar> = of_int \<bar>m\<bar>" by simp
    also have "\<dots> \<le> of_int (2 ^ 24)" using assms by (simp only: of_int_le_iff)
    also have "\<dots> \<le> 2 powi 64" by simp
    finally show ?thesis .
  qed
  then show ?thesis using Math_fround_small [of "of_int m"] f by simp
qed

lemma Math_fround_consts [simp]:
  "Math_fround (Num 0) = Num 0" "Math_fround (Num 1) = Num 1" "Math_fround (Num 2) = Num 2"
  "Math_fround (Num (- 3)) = Num (- 3)" "Math_fround (Num 40) = Num 40"
  using Math_fround_int [of 0] Math_fround_int [of 1] Math_fround_int [of 2]
    Math_fround_int [of "- 3"] Math_fround_int [of 40]
  by simp_all

lemma toDouble_zero [simp]: "toDouble (Num 0) = Num 0"
  using toDouble_small [of 0] by (simp add: fl64_def)

lemma smoothing_double: "toDouble (Num (1 / 20)) = Num smoothing"
proof -
  have "round_to 53 (- 1022) (1 / 20) = of_int 7205759403792794 * 2 powi (- 5 - int 53 + 1)"
    by (rule round_to_eval) simp_all
  then have f: "fl64 (1 / 20) = smoothing"
    by (simp add: fl64_def smoothing_def)
  have "\<bar>1 / 20 :: real\<bar> \<le> 2 powi 64" by simp
  then show ?thesis using toDouble_small [of "1 / 20"] f by simp
qed

lemma retention_double: "toDouble (Num (1 - smoothing)) = Num retention"
proof -
  have "round_to 53 (- 1022) (1 - smoothing)
      = of_int 8556839292003942 * 2 powi (- 1 - int 53 + 1)"
    by (rule round_to_eval) (simp_all add: smoothing_def)
  then have f: "fl64 (1 - smoothing) = retention"
    by (simp add: fl64_def retention_def)
  have "\<bar>1 - smoothing\<bar> \<le> 2 powi 64" by (simp add: smoothing_def)
  then show ?thesis using toDouble_small [of "1 - smoothing"] f by simp
qed

lemma retention_bounds: "0 < retention" "retention < 1" "retention + 2 powi (- 52) \<le> 24 / 25"
  by (simp_all add: retention_def)

lemma is_double_toDouble [simp]: "is_double w \<Longrightarrow> toDouble (Num w) = Num w"
  using toDouble_Num [of w] by (simp add: is_double_def)

lemma is_double_int:
  assumes "\<bar>m\<bar> < 2 ^ 53"
  shows "is_double (of_int m)"
proof -
  have f: "fl64 (of_int m) = of_int m"
    using fl64_fix [OF assms, of 0] by simp
  have "\<bar>of_int m :: real\<bar> \<le> 2 powi 64"
  proof -
    have "\<bar>of_int m :: real\<bar> = of_int \<bar>m\<bar>" by simp
    also have "\<dots> \<le> of_int (2 ^ 53)" using assms by (simp only: of_int_le_iff)
    also have "\<dots> \<le> 2 powi 64" by simp
    finally show ?thesis .
  qed
  then have "\<bar>of_int m :: real\<bar> < overflow64" by (rule below_overflow64)
  with f show ?thesis by (simp add: is_double_def)
qed

lemma is_double_consts [simp]: "is_double 0" "is_double 1" "is_double 15"
  using is_double_int [of 0] is_double_int [of 1] is_double_int [of 15] by simp_all

text \<open>The smoothing towards the target 0, for a finite wind.\<close>

lemma lerp_to_zero:
  assumes "is_double w"
  shows "MathUtils_lerp (Num w) (Num 0) (Num (1 / 20))
     = toDouble (toDouble (Num (retention * w)) + Num 0)"
  using assms by (simp add: MathUtils_lerp_def Let_def smoothing_double retention_double)

lemma lerp_zero_zero [simp]:
  "MathUtils_lerp (Num 0) (Num 0) (Num (1 / 20)) = Num 0"
  by (simp add: lerp_to_zero)

lemma toDouble_three_quarters: "toDouble (Num (3 / 4)) = Num (3 / 4)"
proof -
  have "fl64 (of_int 3 * 2 powi (- 2)) = of_int 3 * 2 powi (- 2)"
    by (rule fl64_fix) simp_all
  then have f: "fl64 (3 / 4) = 3 / 4" by simp
  have "\<bar>3 / 4 :: real\<bar> \<le> 2 powi 64" by simp
  then show ?thesis using toDouble_small [of "3 / 4"] f by simp
qed

lemma lerp_zero_fifteen:
  "MathUtils_lerp (Num 0) (Num 15) (Num (1 / 20)) = Num (3 / 4)"
proof -
  have "round_to 53 (- 1022) (smoothing * 15)
      = of_int 6755399441055744 * 2 powi (- 1 - int 53 + 1)"
    by (rule round_to_eval) (simp_all add: smoothing_def)
  then have f: "fl64 (smoothing * 15) = 3 / 4"
    by (simp add: fl64_def)
  have "\<bar>smoothing * 15\<bar> \<le> 2 powi 64" by (simp add: smoothing_def)
  then have "toDouble (Num (smoothing * 15)) = Num (3 / 4)"
    using toDouble_small [of "smoothing * 15"] f by simp
  then show ?thesis
    by (simp add: MathUtils_lerp_def Let_def smoothing_double retention_double
        toDouble_three_quarters)
qed

lemma minDouble_pos [simp]: "0 < minDouble"
  by (simp only: minDouble_def zero_less_power_int zero_less_numeral)

lemma minNormal_pos [simp]: "0 < minNormal"
  by (simp only: minNormal_def zero_less_power_int zero_less_numeral)

lemma minDouble_nonzero [simp]: "minDouble \<noteq> 0"
  using minDouble_pos by linarith

lemma minDouble_nonneg [simp]: "0 \<le> minDouble"
  using minDouble_pos by linarith

lemma minDouble_abs [simp]: "\<bar>minDouble\<bar> = minDouble"
  using minDouble_pos by linarith

lemma normal_nonzero: "minNormal \<le> \<bar>w\<bar> \<Longrightarrow> w \<noteq> 0"
  using minNormal_pos by (cases "w = 0") simp_all

lemma fl64_grid: "\<exists>k. fl64 x = of_int k * minDouble"
  using round_to_grid [of 53 "- 1022" x] by (simp add: fl64_def minDouble_def)

lemma is_double_grid:
  assumes "is_double w"
  obtains k where "w = of_int k * minDouble"
  using assms fl64_grid [of w] by (auto simp: is_double_def)

lemma fl64_idem: "fl64 (fl64 x) = fl64 x"
  unfolding fl64_def by (rule round_to_idem) simp

lemma is_double_fl64: "\<bar>fl64 x\<bar> < overflow64 \<Longrightarrow> is_double (fl64 x)"
  by (simp add: is_double_def fl64_idem)

lemma ulp64_subnormal:
  assumes "x \<noteq> 0" "\<bar>x\<bar> < minNormal"
  shows "ulp 53 (- 1022) x = minDouble"
proof -
  have "\<bar>x\<bar> < 2 powi ((- 1023) + 1)" using assms(2) by (simp only: minNormal_def) simp
  with assms(1) have "expo x \<le> - 1023" by (rule expo_le)
  then have "max (- 1022) (expo x) - int 53 + 1 = - 1074" by simp
  then show ?thesis by (simp only: ulp_def minDouble_def)
qed

lemma ulp64_normal:
  assumes "x \<noteq> 0" "\<bar>x\<bar> \<le> \<bar>w\<bar>" "minNormal \<le> \<bar>w\<bar>"
  shows "ulp 53 (- 1022) x \<le> \<bar>w\<bar> * 2 powi (- 52)"
proof -
  have "expo x \<le> expo w" using assms(1,2) by (rule expo_mono)
  moreover have "- 1022 \<le> expo w"
    using assms(3) unfolding minNormal_def by (rule expo_ge)
  ultimately have "max (- 1022) (expo x) - int 53 + 1 \<le> expo w + (- 52)" by simp
  then have "ulp 53 (- 1022) x \<le> 2 powi (expo w + (- 52))"
    unfolding ulp_def by (intro power_int_increasing) simp_all
  also have "\<dots> = 2 powi (expo w) * 2 powi (- 52)"
    by (rule power_int_add) simp
  also have "\<dots> \<le> \<bar>w\<bar> * 2 powi (- 52)"
  proof (intro mult_right_mono)
    from assms(3) have "w \<noteq> 0" by (rule normal_nonzero)
    then show "2 powi (expo w) \<le> \<bar>w\<bar>" by (rule expo_bounds)
  qed simp
  finally show ?thesis .
qed

lemma fl64_retention_small:
  assumes "w = of_int k * minDouble" "\<bar>w\<bar> < minNormal"
  shows "\<bar>fl64 (retention * w)\<bar> \<le> \<bar>w\<bar>"
proof (cases "w = 0")
  case True
  then show ?thesis by (simp add: fl64_def)
next
  case False
  let ?x = "retention * w"
  have x0: "?x \<noteq> 0" using False retention_bounds(1) by simp
  have le: "\<bar>?x\<bar> \<le> \<bar>w\<bar>"
  proof -
    have "\<bar>?x\<bar> = retention * \<bar>w\<bar>" using retention_bounds(1) by (simp add: abs_mult)
    also have "\<dots> \<le> 1 * \<bar>w\<bar>"
      using retention_bounds(2) by (intro mult_right_mono) simp_all
    finally show ?thesis by simp
  qed
  with assms(2) have "\<bar>?x\<bar> < minNormal" by linarith
  with x0 have u: "ulp 53 (- 1022) ?x = minDouble" by (rule ulp64_subnormal)
  have "\<bar>w\<bar> = of_int \<bar>k\<bar> * minDouble"
    using assms(1) by (simp add: abs_mult)
  with le have "\<bar>?x\<bar> \<le> of_int \<bar>k\<bar> * ulp 53 (- 1022) ?x" by (simp only: u)
  then have "\<bar>round_to 53 (- 1022) ?x\<bar> \<le> of_int \<bar>k\<bar> * ulp 53 (- 1022) ?x"
    by (rule round_to_abs_le)
  then show ?thesis
    unfolding fl64_def u using \<open>\<bar>w\<bar> = of_int \<bar>k\<bar> * minDouble\<close> by simp
qed

lemma fl64_retention_normal:
  assumes "minNormal \<le> \<bar>w\<bar>"
  shows "\<bar>fl64 (retention * w)\<bar> \<le> 24 / 25 * \<bar>w\<bar>"
proof -
  let ?x = "retention * w"
  from assms have w0: "w \<noteq> 0" by (rule normal_nonzero)
  then have x0: "?x \<noteq> 0" using retention_bounds(1) by simp
  have ax: "\<bar>?x\<bar> = retention * \<bar>w\<bar>" using retention_bounds(1) by (simp add: abs_mult)
  then have le: "\<bar>?x\<bar> \<le> \<bar>w\<bar>"
    using retention_bounds(2) mult_right_mono [of retention 1 "\<bar>w\<bar>"] by simp
  have u: "ulp 53 (- 1022) ?x \<le> \<bar>w\<bar> * 2 powi (- 52)"
    using x0 le assms by (rule ulp64_normal)
  have "\<bar>fl64 ?x - ?x\<bar> \<le> ulp 53 (- 1022) ?x / 2"
    unfolding fl64_def by (rule round_to_err)
  then have "\<bar>fl64 ?x\<bar> \<le> \<bar>?x\<bar> + ulp 53 (- 1022) ?x" 
    using ulp_nonneg [of 53 "- 1022" ?x] by linarith
  also have "\<dots> \<le> retention * \<bar>w\<bar> + \<bar>w\<bar> * 2 powi (- 52)"
    using u ax by linarith
  also have "\<dots> = (retention + 2 powi (- 52)) * \<bar>w\<bar>"
    by (simp only: algebra_simps)
  also have "\<dots> \<le> 24 / 25 * \<bar>w\<bar>"
    using retention_bounds(3) by (intro mult_right_mono) simp_all
  finally show ?thesis .
qed

lemma fl64_retention:
  assumes "is_double w"
  shows "is_double (fl64 (retention * w))" "\<bar>fl64 (retention * w)\<bar> \<le> \<bar>w\<bar>"
proof -
  from assms obtain k where k: "w = of_int k * minDouble" by (rule is_double_grid)
  show le: "\<bar>fl64 (retention * w)\<bar> \<le> \<bar>w\<bar>"
  proof (cases "\<bar>w\<bar> < minNormal")
    case True
    with k show ?thesis by (rule fl64_retention_small)
  next
    case False
    then have "minNormal \<le> \<bar>w\<bar>" by simp
    then have "\<bar>fl64 (retention * w)\<bar> \<le> 24 / 25 * \<bar>w\<bar>" by (rule fl64_retention_normal)
    then show ?thesis by linarith
  qed
  from assms have "\<bar>w\<bar> < overflow64" by (simp add: is_double_def)
  with le have "\<bar>fl64 (retention * w)\<bar> < overflow64" by linarith
  then show "is_double (fl64 (retention * w))" by (rule is_double_fl64)
qed

lemma wind_inactive_step:
  assumes "windVelocity s = Num w" "is_double w" "\<not> h_active hand"
  shows "windVelocity (useFrame n time viewport ips hand s) = Num (fl64 (retention * w))"
proof -
  let ?r = "fl64 (retention * w)"
  note r = fl64_retention [OF assms(2)]
  from r(1) have a: "toDouble (Num (retention * w)) = Num ?r"
    by (intro toDouble_Num) (simp add: is_double_def)
  show ?thesis
    using assms r(1) by (simp add: windVelocity_useFrame targetWindOf_def lerp_to_zero a)
qed

section \<open>What the particle loop writes\<close>

lemma length_particleLoop [simp]:
  "length (particleLoop n i time aps wind initials arr) = length arr"
proof (induction n i time aps wind initials arr rule: particleLoop.induct)
  case (1 n i time aps wind initials arr)
  show ?case
  proof (cases "i < n")
    case True
    obtain tx ty tz where t: "particleTarget time aps wind initials i = (tx, ty, tz)"
      by (cases "particleTarget time aps wind initials i") auto
    from True t "1.IH" [OF True refl, of "(tx, ty, tz)" tx "(ty, tz)" ty tz] show ?thesis
      by (subst particleLoop.simps) (simp add: Let_def)
  next
    case False
    then show ?thesis by (subst particleLoop.simps) simp
  qed
qed

lemma particleLoop_nth:
  "j < length arr \<Longrightarrow>
   particleLoop n i time aps wind initials arr ! j =
     (if 3 * i \<le> j \<and> j < 3 * n then coord (particleTarget time aps wind initials (j div 3)) (j mod 3)
      else arr ! j)"
proof (induction n i time aps wind initials arr rule: particleLoop.induct)
  case (1 n i time aps wind initials arr)
  show ?case
  proof (cases "i < n")
    case True
    obtain tx ty tz where t: "particleTarget time aps wind initials i = (tx, ty, tz)"
      by (cases "particleTarget time aps wind initials i") auto
    let ?arr = "arr[i * 3 := tx, i * 3 + 1 := ty, i * 3 + 2 := tz]"
    have len: "j < length ?arr" using "1.prems" by simp
    have step: "particleLoop n i time aps wind initials arr =
                particleLoop n (Suc i) time aps wind initials ?arr"
      using True t by (subst particleLoop.simps) (simp add: Let_def)
    have IH: "particleLoop n (Suc i) time aps wind initials ?arr ! j =
      (if 3 * Suc i \<le> j \<and> j < 3 * n
       then coord (particleTarget time aps wind initials (j div 3)) (j mod 3) else ?arr ! j)"
      using "1.IH" [OF True refl, of "(tx, ty, tz)" tx "(ty, tz)" ty tz] t len by simp
    have "j < 3 * i \<or> j = 3 * i \<or> j = 3 * i + 1 \<or> j = 3 * i + 2 \<or> 3 * Suc i \<le> j"
      by arith
    then consider "j < 3 * i" | "j = 3 * i" | "j = 3 * i + 1" | "j = 3 * i + 2" | "3 * Suc i \<le> j"
      by blast
    then show ?thesis
    proof cases
      case 1
      then show ?thesis using step IH by simp
    next
      case 2
      then have "j div 3 = i" "j mod 3 = 0" by presburger+
      then show ?thesis using step IH 2 True "1.prems" t
        by (simp add: coord_def mult.commute)
    next
      case 3
      then have "j div 3 = i" "j mod 3 = 1" by presburger+
      then show ?thesis using step IH 3 True "1.prems" t
        by (simp add: coord_def mult.commute)
    next
      case 4
      then have "j div 3 = i" "j mod 3 = 2" by presburger+
      then show ?thesis using step IH 4 True "1.prems" t
        by (simp add: coord_def mult.commute)
    next
      case 5
      then show ?thesis using step IH by simp
    qed
  next
    case False
    then have "\<not> (3 * i \<le> j \<and> j < 3 * n)" by arith
    with False show ?thesis by (subst particleLoop.simps) (simp only: if_False)
  qed
qed

lemma sumsq_not_neg [simp]: "\<not> a * a + b * b < (0 :: real)"
  by (simp add: not_less)

lemma distOf_Num:
  assumes "at_index initials (i * 3) = Num x0" "at_index initials (i * 3 + 1) = Num y0"
  shows "distOf initials i = Num (sqrt (x0 * x0 + y0 * y0))"
  using assms by (simp add: distOf_def Let_def)

lemma orbitTarget_Num:
  assumes "at_index initials (i * 3) = Num x0" "at_index initials (i * 3 + 1) = Num y0"
    "at_index initials (i * 3 + 2) = Num z0"
  defines "d \<equiv> sqrt (x0 * x0 + y0 * y0)"
  shows "\<exists>tx ty. orbitTarget (Num t) initials i
           = (Num tx, Num ty, Num (z0 + sin (t * 0.5 + d * 0.5) * 0.3))
         \<and> tx * tx + ty * ty = d * d"
proof -
  have d0: "0 \<le> d" by (simp add: d_def)
  then have nz: "d * 0.1 + 1 \<noteq> 0" by simp
  define ca where "ca = atan2 y0 x0 + t * ((0.04 + sin (t * 0.1 + d * 0.3) * 0.5 * 0.02) * (1 / (d * 0.1 + 1)))"
  have "orbitTarget (Num t) initials i
      = (Num (cos ca * d), Num (sin ca * d), Num (z0 + sin (t * 0.5 + d * 0.5) * 0.3))"
    using assms(1-3) nz by (simp add: orbitTarget_def Let_def d_def [symmetric] ca_def)
  moreover have "(cos ca * d) * (cos ca * d) + (sin ca * d) * (sin ca * d) = d * d"
  proof -
    have "(cos ca * d) * (cos ca * d) + (sin ca * d) * (sin ca * d)
        = (cos ca * cos ca + sin ca * sin ca) * (d * d)"
      by (simp only: algebra_simps)
    also have "cos ca * cos ca + sin ca * sin ca = 1"
      using sin_cos_squared_add2 [of ca] by (simp add: power2_eq_square)
    finally show ?thesis by simp
  qed
  ultimately show ?thesis by blast
qed

lemma useFrame_positions_nth:
  assumes "j < length (positions s)" "j < 3 * n"
  shows "positions (useFrame n time viewport ips hand s) ! j =
     coord (particleTarget time (activePoints viewport ips)
              (windVelocity (useFrame n time viewport ips hand s)) (initialPositions s) (j div 3))
           (j mod 3)"
  using assms by (simp add: useFrame_def Let_def particleLoop_nth)

lemma activePoints_Nil [simp]: "activePoints viewport [] = []"
  by (simp add: activePoints_def map_values_def)

lemma particleTarget_no_points:
  assumes "at_index initials (i * 3) = Num x0" "at_index initials (i * 3 + 1) = Num y0"
    "at_index initials (i * 3 + 2) = Num z0"
  defines "d \<equiv> sqrt (x0 * x0 + y0 * y0)"
  shows "\<exists>tx ty. particleTarget (Num t) [] (Num w) initials i
           = (Num (tx + w * (1 - d / 20)), Num ty, Num (z0 + sin (t * 0.5 + d * 0.5) * 0.3))
         \<and> tx * tx + ty * ty = d * d"
proof -
  from orbitTarget_Num [OF assms(1-3), of t] obtain tx ty where
    o: "orbitTarget (Num t) initials i = (Num tx, Num ty, Num (z0 + sin (t * 0.5 + d * 0.5) * 0.3))"
    and r: "tx * tx + ty * ty = d * d"
    unfolding d_def by blast
  have "particleTarget (Num t) [] (Num w) initials i
      = (Num (tx + w * (1 - d / 20)), Num ty, Num (z0 + sin (t * 0.5 + d * 0.5) * 0.3))"
    using o distOf_Num [OF assms(1,2)] by (simp add: particleTarget_def d_def)
  with r show ?thesis by blast
qed

section \<open>What the arrays hold\<close>

lemma length_useFrame [simp]:
  "length (positions (useFrame n time viewport ips hand s)) = length (positions s)"
  by (simp add: useFrame_def Let_def)

lemma fl32_idem: "fl32 (fl32 x) = fl32 x"
  unfolding fl32_def by (rule round_to_idem) simp

lemma Math_fround_idem: "Math_fround (Math_fround v) = Math_fround v"
proof (cases v)
  case (Num a)
  show ?thesis
  proof (cases "overflow32 \<le> \<bar>fl32 a\<bar>")
    case True
    then show ?thesis
      by (simp add: Num Math_fround.simps(1) inf_of_sign_def)
  next
    case False
    then show ?thesis
      by (simp add: Num Math_fround.simps(1) fl32_idem)
  qed
qed simp_all

lemma fl32_near:
  assumes "\<bar>a\<bar> < 16"
  shows "\<bar>fl32 a - a\<bar> \<le> 2 powi (- 21)"
proof (cases "a = 0")
  case True
  then show ?thesis by (simp add: fl32_def)
next
  case False
  have "\<bar>a\<bar> < 2 powi (3 + 1)" using assms by simp
  with False have "ulp 24 (- 126) a \<le> 2 powi (3 - int 24 + 1)"
    by (rule ulp_le) simp
  then have u: "ulp 24 (- 126) a \<le> 2 powi (- 20)" by simp
  have "\<bar>fl32 a - a\<bar> \<le> ulp 24 (- 126) a / 2"
    unfolding fl32_def by (rule round_to_err)
  also have "\<dots> \<le> 2 powi (- 20) / 2" using u by simp
  also have "\<dots> = 2 powi (- 21)" by simp
  finally show ?thesis .
qed

lemma abs_le_radius: "\<bar>x\<bar> \<le> sqrt (x * x + y * y)" for x y :: real
proof -
  have "\<bar>x\<bar> = sqrt (x * x)" by simp
  also have "\<dots> \<le> sqrt (x * x + y * y)" by (intro real_sqrt_le_mono) simp
  finally show ?thesis .
qed

lemma radius_shift:
  fixes x y x' y' :: real
  shows "sqrt (x' * x' + y' * y') \<le> sqrt (x * x + y * y) + (\<bar>x' - x\<bar> + \<bar>y' - y\<bar>)"
proof -
  have "sqrt ((x + (x' - x))\<^sup>2 + (y + (y' - y))\<^sup>2)
      \<le> sqrt (x\<^sup>2 + y\<^sup>2) + sqrt ((x' - x)\<^sup>2 + (y' - y)\<^sup>2)"
    by (rule real_sqrt_sum_squares_triangle_ineq)
  moreover have "sqrt ((x' - x)\<^sup>2 + (y' - y)\<^sup>2) \<le> \<bar>x' - x\<bar> + \<bar>y' - y\<bar>"
    by (rule sqrt_sum_squares_le_sum_abs)
  ultimately show ?thesis by (simp add: power2_eq_square)
qed

lemma stored_radius:
  assumes "sqrt (x * x + y * y) < 16"
  shows "\<bar>sqrt (fl32 x * fl32 x + fl32 y * fl32 y) - sqrt (x * x + y * y)\<bar> \<le> 1 / 1000000"
proof -
  have "\<bar>x\<bar> < 16" using abs_le_radius [of x y] assms by linarith
  then have ex: "\<bar>fl32 x - x\<bar> \<le> 2 powi (- 21)" by (rule fl32_near)
  have "\<bar>y\<bar> < 16" using abs_le_radius [of y x] assms by (simp add: add.commute)
  then have ey: "\<bar>fl32 y - y\<bar> \<le> 2 powi (- 21)" by (rule fl32_near)
  have t: "(2 :: real) powi (- 21) + 2 powi (- 21) \<le> 1 / 1000000" by simp
  have "sqrt (fl32 x * fl32 x + fl32 y * fl32 y)
      \<le> sqrt (x * x + y * y) + (\<bar>fl32 x - x\<bar> + \<bar>fl32 y - y\<bar>)"
    by (rule radius_shift)
  moreover have "sqrt (x * x + y * y)
      \<le> sqrt (fl32 x * fl32 x + fl32 y * fl32 y) + (\<bar>x - fl32 x\<bar> + \<bar>y - fl32 y\<bar>)"
    by (rule radius_shift)
  ultimately show ?thesis using ex ey t by linarith
qed

lemma stored_coordinate:
  assumes "\<bar>a\<bar> \<le> 16"
  shows "Math_fround (Num a) = Num (fl32 a)" "Math_fround (Num (fl32 a)) = Num (fl32 a)"
proof -
  have "\<bar>a\<bar> \<le> 2 powi 64"
    using assms power_int_increasing [of 4 64 "2 :: real"] by simp
  then show r: "Math_fround (Num a) = Num (fl32 a)" by (rule Math_fround_small)
  have "Math_fround (Math_fround (Num a)) = Math_fround (Num a)" by (rule Math_fround_idem)
  then show "Math_fround (Num (fl32 a)) = Num (fl32 a)" by (simp only: r)
qed

lemma stored_depth:
  assumes "- 2 \<le> z" "z < 2"
  shows "- 2 \<le> fl32 z" "fl32 z \<le> 2"
proof -
  have "\<bar>z\<bar> \<le> 2 powi 1" using assms by simp
  then have "\<bar>fl32 z\<bar> \<le> 2 powi 1" by (rule fl32_le_pow2) simp
  then show "- 2 \<le> fl32 z" "fl32 z \<le> 2" by simp_all
qed

lemma at_index_stored:
  assumes "j < length xs" "xs ! j = Num a" "sqrt (a * a + b * b) < 16"
  shows "at_index xs j = Num (fl32 a)"
proof -
  have "\<bar>a\<bar> \<le> 16" using abs_le_radius [of a b] assms(3) by linarith
  then show ?thesis using assms(1,2) by (simp add: at_index_def stored_coordinate)
qed

lemma stored_within:
  assumes "\<bar>a\<bar> < 16"
  shows "within_tolerance (Math_fround (Num a)) a"
proof -
  from assms have "\<bar>a\<bar> \<le> 16" by simp
  then have "Math_fround (Num a) = Num (fl32 a)" by (rule stored_coordinate)
  moreover have "\<bar>fl32 a - a\<bar> \<le> 2 powi (- 21)" using assms by (rule fl32_near)
  moreover have "(2 :: real) powi (- 21) \<le> 1 / 1000000" by simp
  ultimately show ?thesis by (simp add: within_tolerance_def)
qed

lemma at_index_within:
  assumes "j < length xs" "xs ! j = Num a" "\<bar>a\<bar> < 16"
  shows "within_tolerance (at_index xs j) a"
  using assms stored_within [of a] by (simp add: at_index_def)

lemma not_within_zero:
  assumes "within_tolerance x e" "1 / 100 < e"
  shows "\<not> within_tolerance x 0"
proof (cases x)
  case (Num v)
  with assms(1) have "\<bar>v - e\<bar> \<le> 1 / 1000000" by (simp add: within_tolerance_def)
  with assms(2) have "\<not> \<bar>v - 0\<bar> \<le> 1 / 1000000" by linarith
  then show ?thesis by (simp add: within_tolerance_def Num)
qed (simp_all add: within_tolerance_def)

section \<open>The initialisation loop\<close>

lemma initPosition_Num:
  assumes "0 \<le> random (7 * i + 1)" "random (7 * i + 1) < 1"
    "0 \<le> random (7 * i + 2)" "random (7 * i + 2) < 1"
  shows "\<exists>x y z. initPosition random i = (Num x, Num y, Num z)
     \<and> 1 \<le> sqrt (x * x + y * y) \<and> sqrt (x * x + y * y) < 15 \<and> - 2 \<le> z \<and> z < 2"
proof -
  define a where "a = random (7 * i) * pi * 2"
  define r where "r = random (7 * i + 1) * 14 + 1"
  define z where "z = (random (7 * i + 2) - 1 / 2) * 4"
  have r: "1 \<le> r" "r < 15" using assms(1,2) by (simp_all add: r_def)
  have z: "- 2 \<le> z" "z < 2" using assms(3,4) by (simp_all add: z_def)
  have p: "initPosition random i = (Num (cos a * r), Num (sin a * r), Num z)"
    by (simp add: initPosition_def Let_def Math_PI_def randomRange_def a_def r_def z_def)
  have "(cos a * r) * (cos a * r) + (sin a * r) * (sin a * r)
      = (cos a * cos a + sin a * sin a) * (r * r)"
    by (simp only: algebra_simps)
  also have "cos a * cos a + sin a * sin a = 1"
    using sin_cos_squared_add2 [of a] by (simp add: power2_eq_square)
  finally have s: "sqrt ((cos a * r) * (cos a * r) + (sin a * r) * (sin a * r)) = r"
    using r by simp
  have "1 \<le> sqrt ((cos a * r) * (cos a * r) + (sin a * r) * (sin a * r))"
    "sqrt ((cos a * r) * (cos a * r) + (sin a * r) * (sin a * r)) < 15"
    using r by (simp_all only: s)
  with p z show ?thesis by blast
qed

lemma palette_index:
  assumes "0 \<le> u" "u < 1" "palette \<noteq> []"
  shows "\<exists>color. array_get palette (Math_floor (Num u * Num (real (length palette)))) = Some color"
proof -
  let ?n = "real (length palette)"
  have n: "0 < ?n" using assms(3) by simp
  have lo: "0 \<le> \<lfloor>u * ?n\<rfloor>" using assms(1) by simp
  have "u * ?n < ?n" using assms(2) n by simp
  then have "\<lfloor>u * ?n\<rfloor> < int (length palette)"
    by (simp add: floor_less_iff)
  with lo have hi: "nat \<lfloor>u * ?n\<rfloor> < length palette" by linarith
  show ?thesis using lo hi by simp
qed

lemma initLoop_result:
  assumes "\<forall>k. 0 \<le> random k \<and> random k < 1" "palette \<noteq> []"
  shows "\<exists>a'. initLoop n i random palette a = Some a'
     \<and> length (initPos a') = length (initPos a)
     \<and> (\<forall>j < length (initPos a). initPos a' ! j =
          (if 3 * i \<le> j \<and> j < 3 * n
           then Math_fround (coord (initPosition random (j div 3)) (j mod 3))
           else initPos a ! j))"
  using assms
proof (induction n i random palette a rule: initLoop.induct)
  case (1 n i random palette a)
  show ?case
  proof (cases "i < n")
    case True
    obtain x y z where p: "initPosition random i = (x, y, z)"
      by (cases "initPosition random i") auto
    from palette_index [of "random (7 * i + 3)" palette] "1.prems"
    obtain color where c: "array_get palette
        (Math_floor (Num (random (7 * i + 3)) * Num (real (length palette)))) = Some color"
      by blast
    let ?a = "a\<lparr> pos := (pos a)[i * 3 := Math_fround x, i * 3 + 1 := Math_fround y,
                                  i * 3 + 2 := Math_fround z],
                initPos := (initPos a)[i * 3 := Math_fround x, i * 3 + 1 := Math_fround y,
                                       i * 3 + 2 := Math_fround z],
                cols := (cols a)[i * 3 := Math_fround (c_r color),
                                 i * 3 + 1 := Math_fround (c_g color),
                                 i * 3 + 2 := Math_fround (c_b color)],
                szs := (szs a)[i := Math_fround
                                    (randomRange (Num (random (7 * i + 4))) 0.08 0.25)],
                phs := (phs a)[i := Math_fround (Num (random (7 * i + 5)) * 10)],
                agls := (agls a)[i := Math_fround (Num (random (7 * i + 6)) * Math_PI)] \<rparr>"
    have step: "initLoop n i random palette a = initLoop n (Suc i) random palette ?a"
      using True p c by (subst initLoop.simps) (simp add: Let_def)
    from "1.IH" [OF True p [symmetric] refl refl c "1.prems"]
    obtain a' where r: "initLoop n (Suc i) random palette ?a = Some a'"
      and len: "length (initPos a') = length (initPos ?a)"
      and nth: "\<forall>j < length (initPos ?a). initPos a' ! j =
          (if 3 * Suc i \<le> j \<and> j < 3 * n
           then Math_fround (coord (initPosition random (j div 3)) (j mod 3))
           else initPos ?a ! j)"
      by blast
    have "initPos a' ! j =
          (if 3 * i \<le> j \<and> j < 3 * n
           then Math_fround (coord (initPosition random (j div 3)) (j mod 3))
           else initPos a ! j)" if j: "j < length (initPos a)" for j
    proof -
      have "j < 3 * i \<or> j = 3 * i \<or> j = 3 * i + 1 \<or> j = 3 * i + 2 \<or> 3 * Suc i \<le> j"
        by arith
      then consider "j < 3 * i" | "j = 3 * i" | "j = 3 * i + 1" | "j = 3 * i + 2" | "3 * Suc i \<le> j"
        by blast
      then show ?thesis
      proof cases
        case 1
        then show ?thesis using nth j by simp
      next
        case 2
        then have "j div 3 = i" "j mod 3 = 0" by presburger+
        then show ?thesis using nth j 2 True p by (simp add: coord_def mult.commute)
      next
        case 3
        then have "j div 3 = i" "j mod 3 = 1" by presburger+
        then show ?thesis using nth j 3 True p by (simp add: coord_def mult.commute)
      next
        case 4
        then have "j div 3 = i" "j mod 3 = 2" by presburger+
        then show ?thesis using nth j 4 True p by (simp add: coord_def mult.commute)
      next
        case 5
        then show ?thesis using nth j by simp
      qed
    qed
    with step r len show ?thesis by simp
  next
    case False
    then have out: "(3 * i \<le> j \<and> j < 3 * n) = False" for j by arith
    have e: "initLoop n i random palette a = Some a"
      using False by (subst initLoop.simps) simp
    show ?thesis
      unfolding e by (intro exI [of _ a]) (simp only: out if_False simp_thms)
  qed
qed

section \<open>The decay of the wind\<close>

lemma toDouble_is_double:
  assumes "toDouble x = Num w"
  shows "is_double w"
proof (cases x)
  case (Num a)
  with assms have "\<not> overflow64 \<le> \<bar>fl64 a\<bar>" and "w = fl64 a"
    by (auto simp: toDouble.simps(1) inf_of_sign_def split: if_splits)
  then show ?thesis using is_double_fl64 [of a] by simp
qed (insert assms, simp_all)

lemma wind_is_double:
  assumes "windVelocity (useFrame n time viewport ips hand s) = Num w"
  shows "is_double w"
  using assms unfolding windVelocity_useFrame MathUtils_lerp_def Let_def
  by (rule toDouble_is_double)

lemma wind_inactive_frames:
  assumes "\<forall>f \<in> set fs. \<not> h_active (snd (snd (snd f)))" "windVelocity s = Num w"
    "is_double w"
  shows "\<exists>w'. windVelocity (runFrames n fs s) = Num w' \<and> is_double w' \<and> \<bar>w'\<bar> \<le> \<bar>w\<bar>
            \<and> (\<bar>w'\<bar> < minNormal \<or> \<bar>w'\<bar> \<le> (24 / 25) ^ length fs * \<bar>w\<bar>)"
  using assms
proof (induction fs arbitrary: s w)
  case Nil
  then show ?case by simp
next
  case (Cons f fs)
  obtain time viewport ips hand where f: "f = (time, viewport, ips, hand)"
    by (cases f) auto
  let ?s = "useFrame n time viewport ips hand s"
  let ?w = "fl64 (retention * w)"
  from Cons.prems f have "\<not> h_active hand" by simp
  with Cons.prems(2,3) have step: "windVelocity ?s = Num ?w"
    by (rule wind_inactive_step)
  have g: "is_double ?w" and le: "\<bar>?w\<bar> \<le> \<bar>w\<bar>"
    using fl64_retention [OF Cons.prems(3)] by simp_all
  from Cons.prems have "\<forall>f \<in> set fs. \<not> h_active (snd (snd (snd f)))" by simp
  from Cons.IH [OF this step g] obtain w' where
    w': "windVelocity (runFrames n fs ?s) = Num w'" "is_double w'" "\<bar>w'\<bar> \<le> \<bar>?w\<bar>"
      "\<bar>w'\<bar> < minNormal \<or> \<bar>w'\<bar> \<le> (24 / 25) ^ length fs * \<bar>?w\<bar>"
    by blast
  have "\<bar>w'\<bar> < minNormal \<or> \<bar>w'\<bar> \<le> (24 / 25) ^ length (f # fs) * \<bar>w\<bar>"
  proof (cases "\<bar>w\<bar> < minNormal")
    case True
    with w'(3) le show ?thesis by linarith
  next
    case False
    then have "minNormal \<le> \<bar>w\<bar>" by simp
    then have n: "\<bar>?w\<bar> \<le> 24 / 25 * \<bar>w\<bar>" by (rule fl64_retention_normal)
    from w'(4) show ?thesis
    proof
      assume "\<bar>w'\<bar> < minNormal"
      then show ?thesis ..
    next
      assume "\<bar>w'\<bar> \<le> (24 / 25) ^ length fs * \<bar>?w\<bar>"
      also have "\<dots> \<le> (24 / 25) ^ length fs * (24 / 25 * \<bar>w\<bar>)"
        using n by (intro mult_left_mono) simp_all
      finally show ?thesis by (simp add: mult.assoc)
    qed
  qed
  moreover have "\<bar>w'\<bar> \<le> \<bar>w\<bar>" using w'(3) le by linarith
  ultimately show ?case using w'(1,2) by (simp add: f)
qed

lemma decay_below:
  fixes w \<epsilon> :: real
  assumes "0 < \<epsilon>"
  shows "\<exists>K. \<forall>k\<ge>K. (24 / 25) ^ k * \<bar>w\<bar> < \<epsilon>"
proof -
  have "0 < \<epsilon> / (\<bar>w\<bar> + 1)" using assms by simp
  then obtain K where K: "(24 / 25 :: real) ^ K < \<epsilon> / (\<bar>w\<bar> + 1)"
    using real_arch_pow_inv [of "\<epsilon> / (\<bar>w\<bar> + 1)" "24 / 25"] by auto
  have "(24 / 25) ^ k * \<bar>w\<bar> < \<epsilon>" if "K \<le> k" for k
  proof -
    have "(24 / 25 :: real) ^ k \<le> (24 / 25) ^ K"
      using that by (intro power_decreasing) simp_all
    then have "(24 / 25 :: real) ^ k < \<epsilon> / (\<bar>w\<bar> + 1)" using K by linarith
    then have "(\<bar>w\<bar> + 1) * (24 / 25) ^ k < \<epsilon>"
      by (simp add: pos_less_divide_eq mult.commute)
    moreover have "\<bar>w\<bar> * (24 / 25) ^ k \<le> (\<bar>w\<bar> + 1) * (24 / 25) ^ k"
      by (intro mult_right_mono) simp_all
    ultimately have "\<bar>w\<bar> * (24 / 25) ^ k < \<epsilon>" by linarith
    then show ?thesis by (simp add: mult.commute)
  qed
  then show ?thesis by blast
qed

lemma stall_value: "fl64 (retention * (9 * minDouble)) = 9 * minDouble"
proof -
  let ?x = "retention * (9 * minDouble)"
  have x0: "?x \<noteq> 0" using retention_bounds(1) by simp
  have "\<bar>?x\<bar> = retention * 9 * minDouble"
    using retention_bounds(1) by (simp add: abs_mult)
  also have "\<dots> \<le> 1 * 16 * minDouble"
    using retention_bounds(1,2) by (intro mult_right_mono mult_mono) simp_all
  also have "\<dots> = 2 powi 4 * 2 powi (- 1074)" by (simp add: minDouble_def)
  also have "\<dots> = 2 powi (4 + (- 1074))" by (rule power_int_add [symmetric]) simp
  also have "\<dots> < 2 powi (- 1022)" by (intro power_int_strict_increasing) simp_all
  finally have lt: "\<bar>?x\<bar> < 2 powi (- 1022)" .
  have m: "2 powi (- 1022 - int 53 + 1) = minDouble"
    unfolding minDouble_def by (rule arg_cong [of _ _ "\<lambda>k. 2 powi k"]) simp
  have "?x / minDouble = retention * 9" by simp
  then have "\<bar>?x / 2 powi (- 1022 - int 53 + 1) - of_int 9\<bar> < 1 / 2"
    unfolding m by (simp add: retention_def)
  with x0 lt have "round_to 53 (- 1022) ?x = of_int 9 * 2 powi (- 1022 - int 53 + 1)"
    by (rule round_to_eval_subnormal)
  then show ?thesis unfolding m fl64_def by simp
qed

lemma stall_is_double: "is_double (9 * minDouble)"
proof -
  have "fl64 (of_int 9 * 2 powi (- 1074)) = of_int 9 * 2 powi (- 1074)"
    by (rule fl64_fix) simp_all
  then have f: "fl64 (9 * minDouble) = 9 * minDouble" by (simp add: minDouble_def)
  have "\<bar>9 * minDouble\<bar> = 9 * 2 powi (- 1074)" by (simp add: minDouble_def)
  also have "\<dots> \<le> 9 * 2 powi 0" by (intro mult_left_mono power_int_increasing) simp_all
  finally have "\<bar>9 * minDouble\<bar> \<le> 2 powi 64"
    using power_int_increasing [of 4 64 "2 :: real"] by simp
  then have "\<bar>9 * minDouble\<bar> < overflow64" by (rule below_overflow64)
  with f show ?thesis by (simp add: is_double_def)
qed

lemma one_is_double: "is_double 1"
  by simp

lemma one_normal: "minNormal \<le> \<bar>1\<bar>"
  using power_int_increasing [of "- 1022" 0 "2 :: real"] by (simp add: minNormal_def)

lemma minDouble_is_double: "is_double minDouble" "is_double (- minDouble)"
proof -
  have b: "\<bar>minDouble\<bar> < overflow64"
  proof (rule below_overflow64)
    have "minDouble \<le> 2 powi 64"
      unfolding minDouble_def by (intro power_int_increasing) simp_all
    then show "\<bar>minDouble\<bar> \<le> 2 powi 64" by simp
  qed
  have "fl64 (of_int 1 * 2 powi (- 1074)) = of_int 1 * 2 powi (- 1074)"
    by (rule fl64_fix) simp_all
  then have "fl64 minDouble = minDouble" by (simp add: minDouble_def)
  with b show "is_double minDouble" by (simp add: is_double_def)
  have "fl64 (of_int (- 1) * 2 powi (- 1074)) = of_int (- 1) * 2 powi (- 1074)"
    by (rule fl64_fix) simp_all
  then have "fl64 (- minDouble) = - minDouble" by (simp add: minDouble_def)
  with b show "is_double (- minDouble)" by (simp add: is_double_def)
qed

lemma smoothing_bounds: "0 < smoothing" "smoothing < 1 / 2"
  by (simp_all add: smoothing_def)

lemma lerp_stall: "lerp (Num minDouble) (Num 0) (Num (1 / 20)) = Num minDouble"
proof -
  let ?x = "- minDouble * smoothing"
  have m: "2 powi (- 1022 - int 53 + 1) = minDouble"
    unfolding minDouble_def by (rule arg_cong [of _ _ "\<lambda>k. 2 powi k"]) simp
  have x0: "?x \<noteq> 0" using smoothing_bounds(1) by simp
  have "\<bar>?x\<bar> = minDouble * smoothing" using smoothing_bounds(1) by (simp add: abs_mult)
  also have "\<dots> \<le> minDouble * 1"
    using smoothing_bounds by (intro mult_left_mono) simp_all
  also have "\<dots> < 2 powi (- 1022)"
    unfolding minDouble_def by (simp only: mult_1_right) (intro power_int_strict_increasing; simp)
  finally have lt: "\<bar>?x\<bar> < 2 powi (- 1022)" .
  have "?x / minDouble = - smoothing" by simp
  then have "\<bar>?x / 2 powi (- 1022 - int 53 + 1) - of_int 0\<bar> < 1 / 2"
    unfolding m using smoothing_bounds by simp
  with x0 lt have "round_to 53 (- 1022) ?x = of_int 0 * 2 powi (- 1022 - int 53 + 1)"
    by (rule round_to_eval_subnormal)
  then have f: "fl64 ?x = 0" by (simp add: fl64_def)
  have "\<bar>fl64 ?x\<bar> < overflow64" by (simp only: f) (simp add: overflow64_def)
  then have "toDouble (Num ?x) = Num 0" using toDouble_Num [of ?x] by (simp only: f)
  then show ?thesis
    using minDouble_is_double
    by (simp add: lerp_def Let_def smoothing_double)
qed




section \<open>The rotation keeps the radius\<close>

text \<open>
  C2. With no interaction point and a wind of 0 in the frame, a particle with a finite
  initial position \<open>(x0, y0, z0)\<close> is written, at every finite time \<open>t\<close>, at a finite
  position whose distance from the axis is \<open>dist = sqrt (x0 * x0 + y0 * y0)\<close>, the
  distance of the initial position, and whose \<open>z\<close> is \<open>z0 + sin (t * 0.5 + dist * 0.5) * 0.3\<close>:
  a function of the time, \<open>z0\<close> and \<open>dist\<close> alone.
\<close>

theorem radius_preserved:
  assumes "at_index (initialPositions s) (i * 3) = Num x0"
    and "at_index (initialPositions s) (i * 3 + 1) = Num y0"
    and "at_index (initialPositions s) (i * 3 + 2) = Num z0"
    and "i < n" and "i * 3 + 2 < length (positions s)"
    and "windVelocity (useFrame n (Num t) viewport [] hand s) = Num 0"
  shows "\<exists>px py. positions (useFrame n (Num t) viewport [] hand s) ! (i * 3) = Num px
             \<and> positions (useFrame n (Num t) viewport [] hand s) ! (i * 3 + 1) = Num py
             \<and> positions (useFrame n (Num t) viewport [] hand s) ! (i * 3 + 2)
                 = Num (z0 + sin (t * 0.5 + sqrt (x0 * x0 + y0 * y0) * 0.5) * 0.3)
             \<and> sqrt (px * px + py * py) = sqrt (x0 * x0 + y0 * y0)"
proof -
  let ?s' = "useFrame n (Num t) viewport [] hand s"
  let ?d = "sqrt (x0 * x0 + y0 * y0)"
  from particleTarget_no_points [OF assms(1-3), of t 0] obtain tx ty where
    p: "particleTarget (Num t) [] (Num 0) (initialPositions s) i
          = (Num tx, Num ty, Num (z0 + sin (t * 0.5 + ?d * 0.5) * 0.3))"
    and r: "tx * tx + ty * ty = ?d * ?d"
    by auto
  have d0: "(i * 3) div 3 = i" "(i * 3) mod 3 = 0" by simp_all
  have d1: "(i * 3 + 1) div 3 = i" "(i * 3 + 1) mod 3 = 1" by presburger+
  have d2: "(i * 3 + 2) div 3 = i" "(i * 3 + 2) mod 3 = 2" by presburger+
  have "positions ?s' ! (i * 3) = Num tx"
    using assms(4,5) useFrame_positions_nth [of "i * 3" s n "Num t" viewport "[]" hand]
    by (simp only: d0 assms(6) activePoints_Nil p) (simp add: coord_def)
  moreover have "positions ?s' ! (i * 3 + 1) = Num ty"
    using assms(4,5) useFrame_positions_nth [of "i * 3 + 1" s n "Num t" viewport "[]" hand]
    by (simp only: d1 assms(6) activePoints_Nil p) (simp add: coord_def)
  moreover have "positions ?s' ! (i * 3 + 2) = Num (z0 + sin (t * 0.5 + ?d * 0.5) * 0.3)"
    using assms(4,5) useFrame_positions_nth [of "i * 3 + 2" s n "Num t" viewport "[]" hand]
    by (simp only: d2 assms(6) activePoints_Nil p) (simp add: coord_def)
  moreover have "sqrt (tx * tx + ty * ty) = ?d"
    by (simp add: r)
  ultimately show ?thesis by blast
qed

theorem radius_preserved_witness:
  "at_index (initialPositions scenario) (2 * 3) = Num (- 3)
   \<and> at_index (initialPositions scenario) (2 * 3 + 1) = Num 0
   \<and> at_index (initialPositions scenario) (2 * 3 + 2) = Num 1
   \<and> (2 :: nat) < 3 \<and> 2 * 3 + 2 < length (positions scenario)
   \<and> windVelocity (useFrame 3 (Num 7) unitViewport [] handState0 scenario) = Num 0
   \<and> (\<exists>px py. positions (useFrame 3 (Num 7) unitViewport [] handState0 scenario) ! (2 * 3) = Num px
             \<and> positions (useFrame 3 (Num 7) unitViewport [] handState0 scenario) ! (2 * 3 + 1) = Num py
             \<and> positions (useFrame 3 (Num 7) unitViewport [] handState0 scenario) ! (2 * 3 + 2)
                 = Num (1 + sin (7 * 0.5 + sqrt (- 3 * - 3 + 0 * 0) * 0.5) * 0.3)
             \<and> sqrt (px * px + py * py) = sqrt (- 3 * - 3 + 0 * 0))"
proof -
  have a: "at_index (initialPositions scenario) (2 * 3) = Num (- 3)"
    "at_index (initialPositions scenario) (2 * 3 + 1) = Num 0"
    "at_index (initialPositions scenario) (2 * 3 + 2) = Num 1"
    by (simp_all add: scenario_def scenarioArrays_def arraysAt_def mountField_def at_index_def)
  have b: "(2 :: nat) < 3" "2 * 3 + 2 < length (positions scenario)"
    by (simp_all add: scenario_def scenarioArrays_def arraysAt_def mountField_def)
  have c: "windVelocity (useFrame 3 (Num 7) unitViewport [] handState0 scenario) = Num 0"
    by (simp add: windVelocity_useFrame scenario_def mountField_def handState0_def
        targetWindOf_def lerp_zero_fifteen)
  from radius_preserved [OF a b c] a b c show ?thesis
    by blast
qed

section \<open>The end-to-end scenario\<close>

lemma sqrt_nine: "sqrt 9 = 3"
  using real_sqrt_abs [of 3] by simp

lemma atan2_scenario: "atan2 0 1 = 0" "atan2 2 0 = pi / 2" "atan2 0 (- 3) = pi"
  by (simp_all add: atan2_def)

lemma sin_taylor9:
  "(\<Sum>m<9. sin_coeff m * (x :: real) ^ m) = x - x ^ 3 / 6 + x ^ 5 / 120 - x ^ 7 / 5040"
proof -
  have "(\<Sum>m<Suc (Suc (Suc (Suc (Suc (Suc (Suc (Suc (Suc 0)))))))). sin_coeff m * (x :: real) ^ m)
      = x - x ^ 3 / 6 + x ^ 5 / 120 - x ^ 7 / 5040"
    unfolding sum.lessThan_Suc sin_coeff_Suc cos_coeff_Suc
    by (simp add: power3_eq_cube power_numeral_odd power_numeral_even field_simps)
  then show ?thesis by (simp add: eval_nat_numeral)
qed

lemma sin_three_halves_bounds:
  "2493 / 2500 < sin (3 / 2 :: real)" "sin (3 / 2 :: real) < 1247 / 1250"
proof -
  have s: "(\<Sum>m<9. sin_coeff m * (3 / 2 :: real) ^ m) = 71493 / 71680"
    by (simp only: sin_taylor9) (simp add: power_divide)
  have f: "inverse (fact 9) * \<bar>3 / 2 :: real\<bar> ^ 9 = 243 / 2293760"
    by (simp add: fact_numeral power_divide)
  have "\<bar>sin (3 / 2 :: real) - (\<Sum>m<9. sin_coeff m * (3 / 2) ^ m)\<bar>
      \<le> inverse (fact 9) * \<bar>3 / 2\<bar> ^ 9"
    by (rule Maclaurin_sin_bound)
  then have b: "\<bar>sin (3 / 2 :: real) - 71493 / 71680\<bar> \<le> 243 / 2293760"
    by (simp only: s f)
  from b show "2493 / 2500 < sin (3 / 2 :: real)" by linarith
  from b show "sin (3 / 2 :: real) < 1247 / 1250" by linarith
qed

lemma sin_half_pos: "0 < sin (1 / 2 :: real)"
proof (rule sin_gt_zero)
  show "0 < (1 / 2 :: real)" by simp
  show "(1 / 2 :: real) < pi" using pi_ge_two by linarith
qed

lemma sin_one_pos: "0 < sin (1 :: real)"
proof (rule sin_gt_zero)
  show "0 < (1 :: real)" by simp
  show "(1 :: real) < pi" using pi_ge_two by linarith
qed

lemma scenario_frame:
  assumes "initialPositions s = [Num 1, Num 0, Num 0, Num 0, Num 2, Num 0, Num (- 3), Num 0, Num 1]"
    and "length (positions s) = 9"
    and "windVelocity (useFrame 3 (Num 0) viewport [] hand s) = Num 0"
  shows "positions (useFrame 3 (Num 0) viewport [] hand s) =
     [Num 1, Num 0, Num (sin (1 / 2) * (3 / 10)),
      Num 0, Num 2, Num (sin 1 * (3 / 10)),
      Num (- 3), Num 0, Num (1 + sin (3 / 2) * (3 / 10))]"
proof -
  let ?s' = "useFrame 3 (Num 0) viewport [] hand s"
  let ?out = "[Num 1, Num 0, Num (sin (1 / 2) * (3 / 10)),
      Num 0, Num 2, Num (sin 1 * (3 / 10)),
      Num (- 3), Num 0, Num (1 + sin (3 / 2) * (3 / 10))]"
  have t0: "particleTarget (Num 0) [] (Num 0) (initialPositions s) 0
      = (Num 1, Num 0, Num (sin (1 / 2) * (3 / 10)))"
    by (simp add: assms(1) particleTarget_def orbitTarget_def distOf_def at_index_def Let_def
        atan2_scenario)
  have t1: "particleTarget (Num 0) [] (Num 0) (initialPositions s) 1
      = (Num 0, Num 2, Num (sin 1 * (3 / 10)))"
    by (simp add: assms(1) particleTarget_def orbitTarget_def distOf_def at_index_def Let_def
        atan2_scenario)
  have t2: "particleTarget (Num 0) [] (Num 0) (initialPositions s) 2
      = (Num (- 3), Num 0, Num (1 + sin (3 / 2) * (3 / 10)))"
    by (simp add: assms(1) particleTarget_def orbitTarget_def distOf_def at_index_def Let_def
        atan2_scenario sqrt_nine)
  have nth: "positions ?s' ! j
      = coord (particleTarget (Num 0) [] (Num 0) (initialPositions s) (j div 3)) (j mod 3)"
    if "j < 9" for j
    using that useFrame_positions_nth [of j s 3 "Num 0" viewport "[]" hand] assms(2,3) by simp
  have len: "length (positions ?s') = 9"
    by (simp add: useFrame_def Let_def assms(2))
  show ?thesis
  proof (rule nth_equalityI)
    show "length (positions ?s') = length ?out"
      using len by simp
  next
    fix j assume "j < length (positions ?s')"
    then have "j < 9" using len by simp
    then have "j = 0 \<or> j = 1 \<or> j = 2 \<or> j = 3 \<or> j = 4 \<or> j = 5 \<or> j = 6 \<or> j = 7 \<or> j = 8"
      by arith
    then show "positions ?s' ! j = ?out ! j"
      using nth [of j] t0 t1 t2 by (elim disjE) (simp_all add: coord_def)
  qed
qed

lemma scenario_wind:
  "windVelocity (useFrame 3 (Num 0) unitViewport [] handState0 scenario) = Num 0"
  by (simp add: windVelocity_useFrame scenario_def mountField_def handState0_def
      targetWindOf_def lerp_zero_fifteen)

lemma scenario_fields:
  "initialPositions scenario = [Num 1, Num 0, Num 0, Num 0, Num 2, Num 0, Num (- 3), Num 0, Num 1]"
  "positions scenario = [Num 1, Num 0, Num 0, Num 0, Num 2, Num 0, Num (- 3), Num 0, Num 1]"
  "length (positions scenario) = 9"
  by (simp_all add: scenario_def scenarioArrays_def arraysAt_def mountField_def)

lemma sin_half_bounds:
  "4794 / 10000 < sin (1 / 2 :: real)" "sin (1 / 2 :: real) < 4795 / 10000"
proof -
  have s: "(\<Sum>m<9. sin_coeff m * (1 / 2 :: real) ^ m) = 309287 / 645120"
    by (simp only: sin_taylor9) (simp add: power_divide)
  have f: "inverse (fact 9) * \<bar>1 / 2 :: real\<bar> ^ 9 = 1 / 185794560"
    by (simp add: fact_numeral power_divide)
  have "\<bar>sin (1 / 2 :: real) - (\<Sum>m<9. sin_coeff m * (1 / 2) ^ m)\<bar>
      \<le> inverse (fact 9) * \<bar>1 / 2\<bar> ^ 9"
    by (rule Maclaurin_sin_bound)
  then have b: "\<bar>sin (1 / 2 :: real) - 309287 / 645120\<bar> \<le> 1 / 185794560"
    by (simp only: s f)
  from b show "4794 / 10000 < sin (1 / 2 :: real)" by linarith
  from b show "sin (1 / 2 :: real) < 4795 / 10000" by linarith
qed

lemma sin_one_bounds:
  "8414 / 10000 < sin (1 :: real)" "sin (1 :: real) < 8415 / 10000"
proof -
  have s: "(\<Sum>m<9. sin_coeff m * (1 :: real) ^ m) = 4241 / 5040"
    by (simp only: sin_taylor9) simp
  have f: "inverse (fact 9) * \<bar>1 :: real\<bar> ^ 9 = 1 / 362880"
    by (simp add: fact_numeral)
  have "\<bar>sin (1 :: real) - (\<Sum>m<9. sin_coeff m * 1 ^ m)\<bar>
      \<le> inverse (fact 9) * \<bar>1\<bar> ^ 9"
    by (rule Maclaurin_sin_bound)
  then have b: "\<bar>sin (1 :: real) - 4241 / 5040\<bar> \<le> 1 / 362880"
    by (simp only: s f)
  from b show "8414 / 10000 < sin (1 :: real)" by linarith
  from b show "sin (1 :: real) < 8415 / 10000" by linarith
qed

lemma scenario_shifts:
  "1438 / 10000 < sin (1 / 2 :: real) * (3 / 10)" "sin (1 / 2 :: real) * (3 / 10) < 1439 / 10000"
  "2524 / 10000 < sin (1 :: real) * (3 / 10)" "sin (1 :: real) * (3 / 10) < 2525 / 10000"
  "12991 / 10000 < 1 + sin (3 / 2 :: real) * (3 / 10)"
  "1 + sin (3 / 2 :: real) * (3 / 10) < 12993 / 10000"
  using sin_half_bounds sin_one_bounds sin_three_halves_bounds by linarith+

lemma scenario_stored:
  assumes "initialPositions s = [Num 1, Num 0, Num 0, Num 0, Num 2, Num 0, Num (- 3), Num 0, Num 1]"
    and "length (positions s) = 9"
    and "windVelocity (useFrame 3 (Num 0) viewport [] hand s) = Num 0"
  defines "P \<equiv> positions (useFrame 3 (Num 0) viewport [] hand s)"
  shows "within_tolerance (at_index P 0) 1" "within_tolerance (at_index P 1) 0"
    "within_tolerance (at_index P 2) (sin (1 / 2) * (3 / 10))"
    "within_tolerance (at_index P 3) 0" "within_tolerance (at_index P 4) 2"
    "within_tolerance (at_index P 5) (sin 1 * (3 / 10))"
    "within_tolerance (at_index P 6) (- 3)" "within_tolerance (at_index P 7) 0"
    "within_tolerance (at_index P 8) (1 + sin (3 / 2) * (3 / 10))"
proof -
  have P: "P = [Num 1, Num 0, Num (sin (1 / 2) * (3 / 10)),
      Num 0, Num 2, Num (sin 1 * (3 / 10)),
      Num (- 3), Num 0, Num (1 + sin (3 / 2) * (3 / 10))]"
    unfolding P_def using assms(1-3) by (rule scenario_frame)
  note b = scenario_shifts
  show "within_tolerance (at_index P 0) 1"
    by (rule at_index_within) (simp_all add: P)
  show "within_tolerance (at_index P 1) 0"
    by (rule at_index_within) (simp_all add: P)
  show "within_tolerance (at_index P 2) (sin (1 / 2) * (3 / 10))"
    using b(1,2) by (intro at_index_within) (simp_all add: P)
  show "within_tolerance (at_index P 3) 0"
    by (rule at_index_within) (simp_all add: P)
  show "within_tolerance (at_index P 4) 2"
    by (rule at_index_within) (simp_all add: P)
  show "within_tolerance (at_index P 5) (sin 1 * (3 / 10))"
    using b(3,4) by (intro at_index_within) (simp_all add: P)
  show "within_tolerance (at_index P 6) (- 3)"
    by (rule at_index_within) (simp_all add: P)
  show "within_tolerance (at_index P 7) 0"
    by (rule at_index_within) (simp_all add: P)
  show "within_tolerance (at_index P 8) (1 + sin (3 / 2) * (3 / 10))"
    using b(5,6) by (intro at_index_within) (simp_all add: P)
qed

text \<open>
  C1, as the claim states it, fails: at time 0 the frame leaves \<open>x\<close> and \<open>y\<close> of the three
  particles as they were, but it shifts the \<open>z\<close> of every particle, not only of the third.
  The array holds about 0.1438 and 0.2524 as the \<open>z\<close> of the first and of the second
  particle, which is not 0 within any floating-point tolerance.
\<close>

theorem scenario_counterexample:
  "positions (useFrame 3 (Num 0) unitViewport [] handState0 scenario)
     \<noteq> [Num 1, Num 0, Num 0, Num 0, Num 2, Num 0,
         Num (- 3), Num 0, Num (1 + sin (3 / 2) * (3 / 10))]
   \<and> \<not> within_tolerance
        (at_index (positions (useFrame 3 (Num 0) unitViewport [] handState0 scenario)) 2) 0
   \<and> \<not> within_tolerance
        (at_index (positions (useFrame 3 (Num 0) unitViewport [] handState0 scenario)) 5) 0"
proof (intro conjI)
  show "positions (useFrame 3 (Num 0) unitViewport [] handState0 scenario)
     \<noteq> [Num 1, Num 0, Num 0, Num 0, Num 2, Num 0,
         Num (- 3), Num 0, Num (1 + sin (3 / 2) * (3 / 10))]"
  proof
    assume "positions (useFrame 3 (Num 0) unitViewport [] handState0 scenario)
       = [Num 1, Num 0, Num 0, Num 0, Num 2, Num 0,
           Num (- 3), Num 0, Num (1 + sin (3 / 2) * (3 / 10))]"
    with scenario_frame [OF scenario_fields(1,3) scenario_wind]
    have "sin (1 / 2 :: real) = 0" by simp
    with sin_half_pos show False by simp
  qed
  note st = scenario_stored [OF scenario_fields(1,3) scenario_wind]
  have "1 / 100 < sin (1 / 2 :: real) * (3 / 10)" using scenario_shifts(1) by linarith
  with st(3) show "\<not> within_tolerance
        (at_index (positions (useFrame 3 (Num 0) unitViewport [] handState0 scenario)) 2) 0"
    by (rule not_within_zero)
  have "1 / 100 < sin (1 :: real) * (3 / 10)" using scenario_shifts(3) by linarith
  with st(6) show "\<not> within_tolerance
        (at_index (positions (useFrame 3 (Num 0) unitViewport [] handState0 scenario)) 5) 0"
    by (rule not_within_zero)
qed

text \<open>
  C1, amended. For the three particles at \<open>(1,0,0)\<close>, \<open>(0,2,0)\<close>, \<open>(-3,0,1)\<close>, at time 0,
  with no interaction point and a wind of 0, the position array holds after the frame,
  within the floating-point tolerance (\<open>1e-6\<close>), \<open>x\<close> and \<open>y\<close> of every particle as they
  were and the \<open>z\<close> of every particle \<open>i\<close> shifted by \<open>sin (dist i * 0.5) * 0.3\<close>:
  the positions \<open>(1, 0, sin 0.5 * 0.3)\<close>, \<open>(0, 2, sin 1 * 0.3)\<close> and
  \<open>(-3, 0, 1 + sin 1.5 * 0.3)\<close>. The three \<open>z\<close> are about 0.1438, 0.2524 and 1.2992.
\<close>

theorem scenario_positions:
  assumes "initialPositions s = [Num 1, Num 0, Num 0, Num 0, Num 2, Num 0, Num (- 3), Num 0, Num 1]"
    and "length (positions s) = 9"
    and "windVelocity (useFrame 3 (Num 0) viewport [] hand s) = Num 0"
  defines "P \<equiv> positions (useFrame 3 (Num 0) viewport [] hand s)"
  shows "within_tolerance (at_index P 0) 1 \<and> within_tolerance (at_index P 1) 0
    \<and> within_tolerance (at_index P 2) (sin (1 / 2) * (3 / 10))
    \<and> within_tolerance (at_index P 3) 0 \<and> within_tolerance (at_index P 4) 2
    \<and> within_tolerance (at_index P 5) (sin 1 * (3 / 10))
    \<and> within_tolerance (at_index P 6) (- 3) \<and> within_tolerance (at_index P 7) 0
    \<and> within_tolerance (at_index P 8) (1 + sin (3 / 2) * (3 / 10))
    \<and> 1438 / 10000 < sin (1 / 2 :: real) * (3 / 10) \<and> sin (1 / 2 :: real) * (3 / 10) < 1439 / 10000
    \<and> 2524 / 10000 < sin (1 :: real) * (3 / 10) \<and> sin (1 :: real) * (3 / 10) < 2525 / 10000
    \<and> 12991 / 10000 < 1 + sin (3 / 2 :: real) * (3 / 10)
    \<and> 1 + sin (3 / 2 :: real) * (3 / 10) < 12993 / 10000"
  unfolding P_def
  using scenario_stored [OF assms(1-3)] scenario_shifts by blast

theorem scenario_positions_witness:
  "initialPositions scenario = [Num 1, Num 0, Num 0, Num 0, Num 2, Num 0, Num (- 3), Num 0, Num 1]
   \<and> length (positions scenario) = 9
   \<and> windVelocity (useFrame 3 (Num 0) unitViewport [] handState0 scenario) = Num 0
   \<and> within_tolerance
       (at_index (positions (useFrame 3 (Num 0) unitViewport [] handState0 scenario)) 0) 1
   \<and> within_tolerance
       (at_index (positions (useFrame 3 (Num 0) unitViewport [] handState0 scenario)) 2)
       (sin (1 / 2) * (3 / 10))
   \<and> within_tolerance
       (at_index (positions (useFrame 3 (Num 0) unitViewport [] handState0 scenario)) 8)
       (1 + sin (3 / 2) * (3 / 10))"
  using scenario_positions [OF scenario_fields(1,3) scenario_wind] scenario_fields(1,3) scenario_wind
  by blast

section \<open>The frame writes every position anew\<close>

lemma particleLoop_fresh:
  assumes "length arr = length arr'" "length arr \<le> 3 * n"
  shows "particleLoop n 0 time aps wind initials arr = particleLoop n 0 time aps wind initials arr'"
proof (rule nth_equalityI)
  show "length (particleLoop n 0 time aps wind initials arr)
      = length (particleLoop n 0 time aps wind initials arr')"
    using assms by simp
next
  fix j assume "j < length (particleLoop n 0 time aps wind initials arr)"
  then have j: "j < length arr" "j < length arr'" "j < 3 * n"
    using assms by simp_all
  then show "particleLoop n 0 time aps wind initials arr ! j
      = particleLoop n 0 time aps wind initials arr' ! j"
    by (simp add: particleLoop_nth)
qed

text \<open>
  C8. A frame leaves the arrays of the colours, sizes, phases and angles and the array of
  the initial positions as they are. The position array keeps its length, and each of its
  \<open>3 * n\<close> numbers is computed from the initial positions, the time, the interaction
  points and the wind: the frame gives the same positions whatever the position array
  held before. The rotation of the scene grows by \<open>0.001 + |windVelocity| * 0.005\<close>.
\<close>

theorem frame_effect:
  assumes "length (positions s) = 3 * n" and "length p = 3 * n"
  shows "colors (useFrame n time viewport ips hand s) = colors s
    \<and> sizes (useFrame n time viewport ips hand s) = sizes s
    \<and> phases (useFrame n time viewport ips hand s) = phases s
    \<and> angles (useFrame n time viewport ips hand s) = angles s
    \<and> initialPositions (useFrame n time viewport ips hand s) = initialPositions s
    \<and> length (positions (useFrame n time viewport ips hand s)) = length (positions s)
    \<and> (\<forall>j < 3 * n. positions (useFrame n time viewport ips hand s) ! j =
          coord (particleTarget time (activePoints viewport ips)
                   (windVelocity (useFrame n time viewport ips hand s)) (initialPositions s) (j div 3))
                (j mod 3))
    \<and> positions (useFrame n time viewport ips hand (s\<lparr> positions := p \<rparr>))
        = positions (useFrame n time viewport ips hand s)
    \<and> rotation_z (useFrame n time viewport ips hand s)
        = rotation_z s + (0.001 + Math_abs (windVelocity (useFrame n time viewport ips hand s)) * 0.005)"
proof -
  have "positions (useFrame n time viewport ips hand (s\<lparr> positions := p \<rparr>))
        = positions (useFrame n time viewport ips hand s)"
    using assms by (simp add: useFrame_def Let_def particleLoop_fresh [of p "positions s"])
  moreover have "\<forall>j < 3 * n. positions (useFrame n time viewport ips hand s) ! j =
          coord (particleTarget time (activePoints viewport ips)
                   (windVelocity (useFrame n time viewport ips hand s)) (initialPositions s) (j div 3))
                (j mod 3)"
    using assms(1) by (simp add: useFrame_positions_nth)
  ultimately show ?thesis
    by (simp add: useFrame_def Let_def)
qed

theorem frame_effect_witness:
  "length (positions scenario) = 3 * 3 \<and> length (replicate 9 NaN) = 3 * 3
   \<and> colors (useFrame 3 (Num 2) unitViewport [] handState0 scenario) = colors scenario
   \<and> sizes (useFrame 3 (Num 2) unitViewport [] handState0 scenario) = sizes scenario
   \<and> phases (useFrame 3 (Num 2) unitViewport [] handState0 scenario) = phases scenario
   \<and> angles (useFrame 3 (Num 2) unitViewport [] handState0 scenario) = angles scenario
   \<and> initialPositions (useFrame 3 (Num 2) unitViewport [] handState0 scenario)
       = initialPositions scenario
   \<and> positions (useFrame 3 (Num 2) unitViewport [] handState0
         (scenario\<lparr> positions := replicate 9 NaN \<rparr>))
       = positions (useFrame 3 (Num 2) unitViewport [] handState0 scenario)"
proof -
  have a: "length (positions scenario) = 3 * 3"
    by (simp add: scenario_fields)
  have b: "length (replicate 9 (NaN :: number)) = 3 * 3"
    by simp
  from frame_effect [OF a b, of "Num 2" unitViewport "[]" handState0] a b show ?thesis
    by blast
qed

section \<open>The frame is a function of its inputs\<close>

text \<open>
  C3. Two runs of the frame with the same time, the same array of initial positions, the
  same snapshot of the interaction points and the same wind write the same position
  array, whatever else the two states hold (earlier positions, colours, rotation, clock
  uniform). Besides the arrays of the positions, the frame changes only \<open>windVelocity\<close>,
  the rotation, the time uniform and the update flag.
\<close>

theorem frame_deterministic:
  assumes "initialPositions s1 = initialPositions s2"
    and "activePoints viewport1 ips1 = activePoints viewport2 ips2"
    and "windVelocity (useFrame n time viewport1 ips1 hand1 s1)
         = windVelocity (useFrame n time viewport2 ips2 hand2 s2)"
    and "length (positions s1) = 3 * n" and "length (positions s2) = 3 * n"
  shows "positions (useFrame n time viewport1 ips1 hand1 s1)
         = positions (useFrame n time viewport2 ips2 hand2 s2)
    \<and> (\<exists>w r arr. useFrame n time viewport1 ips1 hand1 s1
          = s1\<lparr> uTime := time, windVelocity := w, positions := arr, needsUpdate := True,
                rotation_z := r \<rparr>)"
proof -
  have w: "MathUtils_lerp (windVelocity s1) (targetWindOf hand1) 0.05
      = MathUtils_lerp (windVelocity s2) (targetWindOf hand2) 0.05"
    using assms(3) by (simp only: windVelocity_useFrame)
  have "positions (useFrame n time viewport1 ips1 hand1 s1)
         = positions (useFrame n time viewport2 ips2 hand2 s2)"
    using assms(1,2,4,5) w
    by (simp add: useFrame_def Let_def particleLoop_fresh [of "positions s1" "positions s2"])
  moreover have "\<exists>w r arr. useFrame n time viewport1 ips1 hand1 s1
          = s1\<lparr> uTime := time, windVelocity := w, positions := arr, needsUpdate := True,
                rotation_z := r \<rparr>"
    by (auto simp: useFrame_def Let_def)
  ultimately show ?thesis by blast
qed

theorem frame_deterministic_witness:
  "initialPositions scenario
     = initialPositions (scenario\<lparr> positions := replicate 9 NaN, colors := [], rotation_z := Num 5 \<rparr>)
   \<and> activePoints unitViewport [] = activePoints \<lparr> width = Num 2, height = Num 3 \<rparr> []
   \<and> length (positions scenario) = 3 * 3
   \<and> length (positions (scenario\<lparr> positions := replicate 9 NaN, colors := [], rotation_z := Num 5 \<rparr>)) = 3 * 3
   \<and> positions (useFrame 3 (Num 2) unitViewport [] handState0 scenario)
       = positions (useFrame 3 (Num 2) \<lparr> width = Num 2, height = Num 3 \<rparr> [] handState0
           (scenario\<lparr> positions := replicate 9 NaN, colors := [], rotation_z := Num 5 \<rparr>))"
proof -
  let ?s2 = "scenario\<lparr> positions := replicate 9 NaN, colors := [], rotation_z := Num 5 \<rparr>"
  let ?v2 = "\<lparr> width = Num 2, height = Num 3 \<rparr>"
  have a: "initialPositions scenario = initialPositions ?s2" by simp
  have b: "activePoints unitViewport [] = activePoints ?v2 []" by simp
  have c: "windVelocity (useFrame 3 (Num 2) unitViewport [] handState0 scenario)
         = windVelocity (useFrame 3 (Num 2) ?v2 [] handState0 ?s2)"
    by (simp add: windVelocity_useFrame)
  have d: "length (positions scenario) = 3 * 3" by (simp add: scenario_fields)
  have e: "length (positions ?s2) = 3 * 3" by simp
  from frame_deterministic [OF a b c d e] a b d e show ?thesis
    by blast
qed

section \<open>The wind\<close>

lemma plus_Num_zero [simp]: "x + Num 0 = x"
  by (cases x) simp_all

lemma particleTarget_wind:
  assumes "at_index initials (i * 3) = Num x0" "at_index initials (i * 3 + 1) = Num y0"
  shows "particleTarget time aps wind initials i =
     (fst (particleTarget time aps (Num 0) initials i)
        + wind * Num (1 - sqrt (x0 * x0 + y0 * y0) / 20),
      fst (snd (particleTarget time aps (Num 0) initials i)),
      snd (snd (particleTarget time aps (Num 0) initials i)))"
  using distOf_Num [OF assms]
  by (simp add: particleTarget_def Let_def split: prod.splits)

lemma index_div_mod:
  "(i * 3) div 3 = i" "(i * 3) mod 3 = 0"
  "(i * 3 + 1) div 3 = i" "(i * 3 + 1) mod 3 = 1"
  "(i * 3 + 2) div 3 = i" "(i * 3 + 2) mod 3 = 2"
  for i :: nat
  by presburger+

lemma useFrame_particle:
  fixes time :: number and viewport :: Viewport and ips :: "InteractionPoint js_map"
    and hand :: HandInfluence
  assumes "i < n" "i * 3 + 2 < length (positions s)"
  defines "s' \<equiv> useFrame n time viewport ips hand s"
  shows "(positions s' ! (i * 3), positions s' ! (i * 3 + 1), positions s' ! (i * 3 + 2))
     = particleTarget time (activePoints viewport ips) (windVelocity s') (initialPositions s) i"
proof -
  have "positions s' ! (i * 3)
      = fst (particleTarget time (activePoints viewport ips) (windVelocity s') (initialPositions s) i)"
    using assms(1,2) useFrame_positions_nth [of "i * 3" s n time viewport ips hand]
    by (simp only: s'_def index_div_mod) (simp add: coord_def)
  moreover have "positions s' ! (i * 3 + 1)
      = fst (snd (particleTarget time (activePoints viewport ips) (windVelocity s') (initialPositions s) i))"
    using assms(1,2) useFrame_positions_nth [of "i * 3 + 1" s n time viewport ips hand]
    by (simp only: s'_def index_div_mod) (simp add: coord_def)
  moreover have "positions s' ! (i * 3 + 2)
      = snd (snd (particleTarget time (activePoints viewport ips) (windVelocity s') (initialPositions s) i))"
    using assms(1,2) useFrame_positions_nth [of "i * 3 + 2" s n time viewport ips hand]
    by (simp only: s'_def index_div_mod) (simp add: coord_def)
  ultimately show ?thesis by simp
qed

lemma sqrt_1600: "sqrt 1600 = 40"
  using real_sqrt_abs [of 40] by simp

lemma farField_fields:
  "initialPositions farField = [Num 40, Num 0, Num 0]" "length (positions farField) = 3"
  "windVelocity farField = Num 0"
  by (simp_all add: farField_def arraysAt_def mountField_def)

lemma farField_target:
  "particleTarget (Num 0) [] (Num w) [Num 40, Num 0, Num 0] 0
     = (Num (40 - w), Num 0, Num (sin 20 * (3 / 10)))"
  by (simp add: particleTarget_def orbitTarget_def distOf_def at_index_def Let_def
      atan2_def sqrt_1600)




section \<open>One interaction point at the origin\<close>

lemma activePoints_origin:
  assumes "width viewport = Num vw" "height viewport = Num vh"
  shows "activePoints viewport [(k, originPoint)] = [\<lparr> a_x = Num 0, a_y = Num 0, a_v = Num 0 \<rparr>]"
  using assms by (simp add: activePoints_def map_values_def originPoint_def)

lemma applyPoint_origin:
  assumes "tx * tx + ty * ty = d * d" "0 \<le> d"
  shows "applyPoint (Num tx, Num ty) \<lparr> a_x = Num 0, a_y = Num 0, a_v = Num 0 \<rparr> =
     (if d < 4 then (Num (tx + tx * ((4 - d) / 4) * (3 / 10)), Num (ty + ty * ((4 - d) / 4) * (3 / 10)))
      else (Num tx, Num ty))"
proof -
  have "sqrt (tx * tx + ty * ty) = d"
    using assms by simp
  then show ?thesis
    by (simp add: applyPoint_def Let_def)
qed

lemma particleTarget_origin:
  assumes "at_index initials (i * 3) = Num x0" "at_index initials (i * 3 + 1) = Num y0"
    "at_index initials (i * 3 + 2) = Num z0"
  defines "d \<equiv> sqrt (x0 * x0 + y0 * y0)"
  shows "\<exists>tx ty tz. tx * tx + ty * ty = d * d
     \<and> particleTarget (Num t) [] (Num w) initials i
         = (Num (tx + w * (1 - d / 20)), Num ty, Num tz)
     \<and> particleTarget (Num t) [\<lparr> a_x = Num 0, a_y = Num 0, a_v = Num 0 \<rparr>] (Num w) initials i
         = (if d < 4
            then (Num (tx + tx * ((4 - d) / 4) * (3 / 10) + w * (1 - d / 20)),
                  Num (ty + ty * ((4 - d) / 4) * (3 / 10)), Num tz)
            else (Num (tx + w * (1 - d / 20)), Num ty, Num tz))"
proof -
  have d0: "0 \<le> d" by (simp add: d_def)
  from orbitTarget_Num [OF assms(1-3), of t] obtain tx ty where
    o: "orbitTarget (Num t) initials i = (Num tx, Num ty, Num (z0 + sin (t * 0.5 + d * 0.5) * 0.3))"
    and r: "tx * tx + ty * ty = d * d"
    unfolding d_def by blast
  let ?tz = "z0 + sin (t * 0.5 + d * 0.5) * 0.3"
  have dist: "distOf initials i = Num d"
    unfolding d_def using assms(1,2) by (rule distOf_Num)
  have "particleTarget (Num t) [] (Num w) initials i = (Num (tx + w * (1 - d / 20)), Num ty, Num ?tz)"
    using o dist by (simp add: particleTarget_def)
  moreover have "particleTarget (Num t) [\<lparr> a_x = Num 0, a_y = Num 0, a_v = Num 0 \<rparr>] (Num w) initials i
         = (if d < 4
            then (Num (tx + tx * ((4 - d) / 4) * (3 / 10) + w * (1 - d / 20)),
                  Num (ty + ty * ((4 - d) / 4) * (3 / 10)), Num ?tz)
            else (Num (tx + w * (1 - d / 20)), Num ty, Num ?tz))"
    using o dist applyPoint_origin [OF r d0] by (simp add: particleTarget_def)
  ultimately show ?thesis using r by blast
qed

lemma zero_radius:
  fixes ox oy :: real
  assumes "ox * ox + oy * oy = 0"
  shows "ox = 0" "oy = 0"
  using assms sum_squares_eq_zero_iff [of ox oy] by simp_all

lemma scaled_radius_eq:
  fixes ox oy c d :: real
  assumes "ox * ox + oy * oy = d * d" "0 \<le> d" "0 \<le> c"
  shows "sqrt ((ox + c * ox) * (ox + c * ox) + (oy + c * oy) * (oy + c * oy)) = (1 + c) * d"
proof -
  have "(ox + c * ox) * (ox + c * ox) + (oy + c * oy) * (oy + c * oy)
      = (1 + c) * (1 + c) * (ox * ox + oy * oy)"
    by (simp only: algebra_simps)
  also have "\<dots> = ((1 + c) * d) * ((1 + c) * d)"
    by (simp only: assms(1)) (simp only: algebra_simps)
  finally have "sqrt ((ox + c * ox) * (ox + c * ox) + (oy + c * oy) * (oy + c * oy)) = \<bar>(1 + c) * d\<bar>"
    by simp
  moreover have "0 \<le> (1 + c) * d" using assms(2,3) by simp
  ultimately show ?thesis by simp
qed

lemma radius_eq:
  fixes ox oy d :: real
  assumes "ox * ox + oy * oy = d * d" "0 \<le> d"
  shows "sqrt (ox * ox + oy * oy) = d"
  using assms by simp

lemma repulsion_margin:
  fixes d :: real
  assumes "1 / 1000 \<le> d" "d \<le> 3999 / 1000"
  shows "1 / 100000 < (4 - d) / 4 * (3 / 10) * d"
proof -
  define q where "q = 4 * d - d * d"
  have "0 \<le> (d - 1 / 1000) * (3999 / 1000 - d)"
    using assms by (intro mult_nonneg_nonneg) simp_all
  moreover have "(d - 1 / 1000) * (3999 / 1000 - d) = q - 3999 / 1000000"
    by (simp add: q_def field_simps)
  ultimately have "3999 / 1000000 \<le> q" by linarith
  then have "1 / 100000 < 3 / 40 * q" by simp
  moreover have "(4 - d) / 4 * (3 / 10) * d = 3 / 40 * q"
    by (simp add: q_def field_simps)
  ultimately show ?thesis by (simp only:)
qed

lemma nearFour_bounds: "0 < nearFour" "nearFour < 4" "2 \<le> nearFour"
proof -
  have "0 < (2 :: real) powi (- 22)" by simp
  moreover have "(2 :: real) powi (- 22) \<le> 2 powi 0" by (intro power_int_increasing) simp_all
  ultimately show "0 < nearFour" "nearFour < 4" "2 \<le> nearFour"
    by (simp_all add: nearFour_def)
qed

lemma nearFour_float: "Math_fround (Num nearFour) = Num nearFour"
proof -
  have e: "of_int 16777215 * 2 powi (- 22) = nearFour" by (simp add: nearFour_def)
  have "fl32 (of_int 16777215 * 2 powi (- 22)) = of_int 16777215 * 2 powi (- 22)"
    by (rule fl32_fix) simp_all
  then have f: "fl32 nearFour = nearFour" by (simp only: e)
  have "\<bar>nearFour\<bar> \<le> 2 powi 64" using nearFour_bounds by simp
  then show ?thesis using Math_fround_small [of nearFour] f by simp
qed

lemma nearFour_absorbed:
  "Math_fround (Num (nearFour + nearFour * ((4 - nearFour) / 4) * (3 / 10))) = Num nearFour"
proof -
  let ?a = "nearFour + nearFour * ((4 - nearFour) / 4) * (3 / 10)"
  have e: "of_int 16777215 * 2 powi (1 - int 24 + 1) = nearFour" by (simp add: nearFour_def)
  have "round_to 24 (- 126) ?a = of_int 16777215 * 2 powi (1 - int 24 + 1)"
    by (rule round_to_eval) (simp_all add: nearFour_def)
  then have f: "fl32 ?a = nearFour" by (simp only: e fl32_def)
  have "\<bar>?a\<bar> \<le> 2 powi 64" by (simp add: nearFour_def)
  then show ?thesis using Math_fround_small [of ?a] f by simp
qed

lemma nearFourField_fields:
  "initialPositions nearFourField = [Num nearFour, Num 0, Num 0]"
  "length (positions nearFourField) = 3" "windVelocity nearFourField = Num 0"
  by (simp_all add: nearFourField_def arraysAt_def mountField_def)

lemma nearFour_radius: "sqrt (nearFour * nearFour) = nearFour"
  using nearFour_bounds(1) by simp

lemma nearFourField_target:
  "particleTarget (Num 0) [] (Num 0) [Num nearFour, Num 0, Num 0] 0
     = (Num nearFour, Num 0, Num (sin (nearFour * (1 / 2)) * (3 / 10)))"
  "particleTarget (Num 0) [\<lparr> a_x = Num 0, a_y = Num 0, a_v = Num 0 \<rparr>] (Num 0)
       [Num nearFour, Num 0, Num 0] 0
     = (Num (nearFour + nearFour * ((4 - nearFour) / 4) * (3 / 10)), Num 0,
        Num (sin (nearFour * (1 / 2)) * (3 / 10)))"
  using nearFour_bounds
  by (simp_all add: particleTarget_def orbitTarget_def distOf_def applyPoint_def at_index_def
      Let_def atan2_def nearFour_float nearFour_radius)

lemma nearFourRandom_unit: "0 \<le> nearFourRandom k \<and> nearFourRandom k < 1"
  by (simp add: nearFourRandom_def)

lemma nearFour_position:
  "initPosition nearFourRandom 0 = (Num (7190235 / 2 ^ 25 * 14 + 1), Num 0, Num 0)"
  by (simp add: initPosition_def Let_def Math_PI_def randomRange_def nearFourRandom_def)

lemma nearFour_stored: "Math_fround (Num (7190235 / 2 ^ 25 * 14 + 1)) = Num nearFour"
proof -
  let ?r = "7190235 / 2 ^ 25 * 14 + 1 :: real"
  have e: "of_int 16777215 * 2 powi (1 - int 24 + 1) = nearFour" by (simp add: nearFour_def)
  have "round_to 24 (- 126) ?r = of_int 16777215 * 2 powi (1 - int 24 + 1)"
    by (rule round_to_eval) simp_all
  then have f: "fl32 ?r = nearFour" by (simp only: e fl32_def)
  have "\<bar>?r\<bar> \<le> 2 powi 64" by simp
  then show ?thesis using Math_fround_small [of ?r] by (simp only: f)
qed

lemma nearFour_receivable:
  "\<exists>a. initParticles 1 nearFourRandom whitePalette = Some a
     \<and> initPos a = [Num nearFour, Num 0, Num 0]"
proof -
  have r: "\<forall>k. 0 \<le> nearFourRandom k \<and> nearFourRandom k < 1"
    using nearFourRandom_unit by blast
  have p: "whitePalette \<noteq> []" by (simp add: whitePalette_def)
  from initLoop_result [OF r p, of 1 0 "newArrays 1"] obtain a where
    a: "initParticles 1 nearFourRandom whitePalette = Some a"
    and len: "length (initPos a) = 3"
    and nth: "\<forall>j < 3. initPos a ! j =
          Math_fround (coord (initPosition nearFourRandom (j div 3)) (j mod 3))"
    by (auto simp: initParticles_def newArrays_def)
  have "initPos a = [Num nearFour, Num 0, Num 0]"
  proof (rule nth_equalityI)
    show "length (initPos a) = length [Num nearFour, Num 0, Num 0]" using len by simp
  next
    fix j assume "j < length (initPos a)"
    then have "j = 0 \<or> j = 1 \<or> j = 2" using len by arith
    then show "initPos a ! j = [Num nearFour, Num 0, Num 0] ! j"
      using nth nearFour_stored
      by (elim disjE) (simp_all add: coord_def nearFour_position)
  qed
  with a show ?thesis by blast
qed




section \<open>A gesture signal that is not a number\<close>

lemma MathUtils_lerp_NaN [simp]:
  "MathUtils_lerp x NaN t = NaN" "MathUtils_lerp NaN y t = NaN"
proof -
  have r: "z * NaN = NaN" for z :: number by (cases z) simp_all
  have l: "z + NaN = NaN" "NaN + z = NaN" for z :: number by (cases z; simp)+
  show "MathUtils_lerp x NaN t = NaN" by (simp add: MathUtils_lerp_def Let_def r l)
  show "MathUtils_lerp NaN y t = NaN" by (simp add: MathUtils_lerp_def Let_def r l)
qed

lemma wind_NaN_frames:
  "windVelocity s = NaN \<Longrightarrow> windVelocity (runFrames n fs s) = NaN"
proof (induction fs arbitrary: s)
  case Nil
  then show ?case by simp
next
  case (Cons f fs)
  obtain time viewport ips hand where f: "f = (time, viewport, ips, hand)"
    by (cases f) auto
  have "windVelocity (useFrame n time viewport ips hand s) = NaN"
    using Cons.prems by (simp add: windVelocity_useFrame)
  then have "windVelocity (runFrames n fs (useFrame n time viewport ips hand s)) = NaN"
    by (rule Cons.IH)
  then show ?case by (simp add: f)
qed

text \<open>
  C9, as the claim states it, fails: an active signal whose velocity is \<open>NaN\<close> is not
  treated as an inactive one. The wind target and the smoothed wind become \<open>NaN\<close>, while
  the same signal with \<open>active = false\<close> gives the target 0 and keeps the wind at 0.
\<close>

theorem gesture_counterexample:
  "targetWindOf nanHand = NaN \<and> targetWindOf idleNanHand = Num 0
   \<and> windVelocity (useFrame 3 (Num 0) unitViewport [] nanHand scenario) = NaN
   \<and> windVelocity (useFrame 3 (Num 0) unitViewport [] idleNanHand scenario) = Num 0"
  by (simp add: windVelocity_useFrame targetWindOf_def nanHand_def idleNanHand_def
      scenario_def mountField_def lerp_zero_fifteen)

text \<open>
  C9, amended. The frame does not check the range of the gesture signal. The wind target is
  \<open>velocityX * -15\<close> for every active signal, whatever the value of \<open>velocityX\<close>, and
  only an inactive signal makes it 0 whatever \<open>velocityX\<close> is. An active signal whose velocity is \<open>NaN\<close> makes the target
  and the smoothed \<open>windVelocity\<close> \<open>NaN\<close>, and \<open>windVelocity\<close> is \<open>NaN\<close> after every
  later frame, whatever the later signals are.
\<close>

theorem gesture_unclamped:
  fixes hand :: HandInfluence
  shows "(h_active hand \<longrightarrow> targetWindOf hand = h_vx hand * - 15)
    \<and> (\<not> h_active hand \<longrightarrow> targetWindOf hand = 0)
    \<and> (h_active hand \<and> h_vx hand = NaN \<longrightarrow>
          targetWindOf hand = NaN
          \<and> windVelocity (useFrame n time viewport ips hand s) = NaN
          \<and> (\<forall>fs. windVelocity (runFrames n fs (useFrame n time viewport ips hand s)) = NaN))"
proof -
  have "targetWindOf hand = NaN
          \<and> windVelocity (useFrame n time viewport ips hand s) = NaN
          \<and> (\<forall>fs. windVelocity (runFrames n fs (useFrame n time viewport ips hand s)) = NaN)"
    if "h_active hand \<and> h_vx hand = NaN"
  proof -
    have t: "targetWindOf hand = NaN"
      using that by (simp add: targetWindOf_def)
    then have w: "windVelocity (useFrame n time viewport ips hand s) = NaN"
      by (simp add: windVelocity_useFrame)
    then show ?thesis using t wind_NaN_frames by blast
  qed
  then show ?thesis by (simp add: targetWindOf_def)
qed

theorem gesture_unclamped_witness:
  "h_active nanHand \<and> h_vx nanHand = NaN
   \<and> targetWindOf nanHand = NaN
   \<and> windVelocity (useFrame 3 (Num 0) unitViewport [] nanHand scenario) = NaN
   \<and> windVelocity (runFrames 3 [(Num 1, unitViewport, [], handState0)]
         (useFrame 3 (Num 0) unitViewport [] nanHand scenario)) = NaN
   \<and> \<not> h_active handState0 \<and> targetWindOf handState0 = 0"
proof -
  have a: "h_active nanHand \<and> h_vx nanHand = NaN"
    by (simp add: nanHand_def)
  have b: "\<not> h_active handState0"
    by (simp add: handState0_def)
  from gesture_unclamped [of nanHand 3 "Num 0" unitViewport "[]" scenario] a
  have "targetWindOf nanHand = NaN
   \<and> windVelocity (useFrame 3 (Num 0) unitViewport [] nanHand scenario) = NaN
   \<and> windVelocity (runFrames 3 [(Num 1, unitViewport, [], handState0)]
         (useFrame 3 (Num 0) unitViewport [] nanHand scenario)) = NaN"
    by blast
  moreover from gesture_unclamped [of handState0 3 "Num 0" unitViewport "[]" scenario] b
  have "targetWindOf handState0 = 0" by blast
  ultimately show ?thesis using a b by blast
qed

section \<open>The pointer handlers\<close>

lemma map_get_set_same [simp]: "map_get (map_set m k v) k = Some v"
  by (induction m) auto

lemma map_get_set_other [simp]: "k' \<noteq> k \<Longrightarrow> map_get (map_set m k v) k' = map_get m k'"
  by (induction m) auto

lemma map_get_delete_same [simp]: "map_get (map_delete m k) k = None"
  by (induction m) (auto simp: map_delete_def)

lemma map_get_delete_other [simp]: "k' \<noteq> k \<Longrightarrow> map_get (map_delete m k) k' = map_get m k'"
  by (induction m) (auto simp: map_delete_def)

text \<open>
  Outside the life cycle of an interaction the handlers do this: a \<open>pointermove\<close> for an
  id with no stored raw position changes nothing, and a \<open>pointerdown\<close> stores velocity
  \<open>(0, 0)\<close> also for an id that is present.
\<close>

lemma handlePointerMove_absent:
  "map_get (lastPointerPositions s) (pointerId e) = None \<Longrightarrow> handlePointerMove window e s = s"
  by (simp add: handlePointerMove_def Let_def)

lemma handlePointerDown_velocity:
  "\<exists>p. map_get (interactionPoints (handlePointerDown window e s)) (pointerId e) = Some p
     \<and> p_vx p = Num 0 \<and> p_vy p = Num 0"
  by (simp add: handlePointerDown_def)

text \<open>
  C6. The handlers are the \<open>upsert\<close> of the aggregator: \<open>pointerdown\<close> starts an
  interaction and \<open>pointermove\<close> continues it. With \<open>x\<close> and \<open>y\<close> the normalised
  coordinates of the event, a \<open>pointerdown\<close> for an id that is absent stores the point with
  velocity \<open>(0, 0)\<close> and the raw position \<open>(x, y)\<close>; a \<open>pointermove\<close> for an id that is
  present stores the point with the velocity \<open>(x - lastX, y - lastY)\<close>, taken from the raw
  position stored before, and stores \<open>(x, y)\<close> as the new raw position. After a
  \<open>pointerup\<close> the id is absent from both maps, so the next \<open>pointerdown\<close> for it starts
  at velocity \<open>(0, 0)\<close> again.
\<close>

theorem pointer_upsert:
  fixes window :: Window and e :: PointerEvent and s :: Pointers
  defines "x \<equiv> (clientX e / innerWidth window) * 2 - 1"
    and "y \<equiv> - (clientY e / innerHeight window) * 2 + 1"
  shows "(map_get (lastPointerPositions s) (pointerId e) = None \<longrightarrow>
            map_get (interactionPoints (handlePointerDown window e s)) (pointerId e)
              = Some \<lparr> p_x = x, p_y = y, p_vx = Num 0, p_vy = Num 0 \<rparr>
            \<and> map_get (lastPointerPositions (handlePointerDown window e s)) (pointerId e)
              = Some \<lparr> l_x = x, l_y = y \<rparr>)
    \<and> (\<forall>lastPos. map_get (lastPointerPositions s) (pointerId e) = Some lastPos \<longrightarrow>
            map_get (interactionPoints (handlePointerMove window e s)) (pointerId e)
              = Some \<lparr> p_x = x, p_y = y, p_vx = x - l_x lastPos, p_vy = y - l_y lastPos \<rparr>
            \<and> map_get (lastPointerPositions (handlePointerMove window e s)) (pointerId e)
              = Some \<lparr> l_x = x, l_y = y \<rparr>)
    \<and> (\<forall>e'. pointerId e' = pointerId e \<longrightarrow>
            map_get (interactionPoints (handlePointerUp e' s)) (pointerId e) = None
            \<and> map_get (lastPointerPositions (handlePointerUp e' s)) (pointerId e) = None
            \<and> map_get (interactionPoints (handlePointerDown window e (handlePointerUp e' s)))
                  (pointerId e)
              = Some \<lparr> p_x = x, p_y = y, p_vx = Num 0, p_vy = Num 0 \<rparr>)"
  by (simp add: handlePointerDown_def handlePointerMove_def handlePointerUp_def Let_def
      x_def y_def)

theorem pointer_upsert_witness:
  "map_get (lastPointerPositions pointers0) (pointerId eventA) = None
   \<and> map_get (interactionPoints (handlePointerDown window0 eventA pointers0)) 7
       = Some \<lparr> p_x = Num 0, p_y = Num 0, p_vx = Num 0, p_vy = Num 0 \<rparr>
   \<and> map_get (lastPointerPositions (handlePointerDown window0 eventA pointers0)) (pointerId eventB)
       = Some \<lparr> l_x = Num 0, l_y = Num 0 \<rparr>
   \<and> map_get (interactionPoints
         (handlePointerMove window0 eventB (handlePointerDown window0 eventA pointers0))) 7
       = Some \<lparr> p_x = Num (1 / 2), p_y = Num (1 / 2), p_vx = Num (1 / 2), p_vy = Num (1 / 2) \<rparr>
   \<and> pointerId eventA = pointerId eventB
   \<and> map_get (interactionPoints (handlePointerUp eventA
         (handlePointerMove window0 eventB (handlePointerDown window0 eventA pointers0)))) 7 = None
   \<and> map_get (interactionPoints (handlePointerDown window0 eventB (handlePointerUp eventA
         (handlePointerMove window0 eventB (handlePointerDown window0 eventA pointers0))))) 7
       = Some \<lparr> p_x = Num (1 / 2), p_y = Num (1 / 2), p_vx = Num 0, p_vy = Num 0 \<rparr>"
proof -
  let ?s1 = "handlePointerDown window0 eventA pointers0"
  let ?s2 = "handlePointerMove window0 eventB ?s1"
  have a: "map_get (lastPointerPositions pointers0) (pointerId eventA) = None"
    by (simp add: pointers0_def)
  have xa: "(clientX eventA / innerWidth window0) * 2 - 1 = Num 0"
    "- (clientY eventA / innerHeight window0) * 2 + 1 = Num 0"
    by (simp_all add: eventA_def window0_def)
  have xb: "(clientX eventB / innerWidth window0) * 2 - 1 = Num (1 / 2)"
    "- (clientY eventB / innerHeight window0) * 2 + 1 = Num (1 / 2)"
    by (simp_all add: eventB_def window0_def)
  have id: "pointerId eventA = 7" "pointerId eventB = 7"
    by (simp_all add: eventA_def eventB_def)
  from pointer_upsert [of pointers0 eventA window0] a xa id
  have d: "map_get (interactionPoints ?s1) 7
       = Some \<lparr> p_x = Num 0, p_y = Num 0, p_vx = Num 0, p_vy = Num 0 \<rparr>"
    "map_get (lastPointerPositions ?s1) (pointerId eventB) = Some \<lparr> l_x = Num 0, l_y = Num 0 \<rparr>"
    by simp_all
  from pointer_upsert [of ?s1 eventB window0] d(2) xb id
  have m: "map_get (interactionPoints ?s2) 7
       = Some \<lparr> p_x = Num (1 / 2), p_y = Num (1 / 2), p_vx = Num (1 / 2), p_vy = Num (1 / 2) \<rparr>"
    by simp
  from pointer_upsert [of ?s2 eventB window0] xb id
  have u: "map_get (interactionPoints (handlePointerUp eventA ?s2)) 7 = None"
    "map_get (interactionPoints (handlePointerDown window0 eventB (handlePointerUp eventA ?s2))) 7
       = Some \<lparr> p_x = Num (1 / 2), p_y = Num (1 / 2), p_vx = Num 0, p_vy = Num 0 \<rparr>"
    by simp_all
  from a d m u id show ?thesis by simp
qed

section \<open>The initial positions\<close>

lemma cornerRandom_unit: "0 \<le> cornerRandom k \<and> cornerRandom k < 1"
proof -
  have "0 < (2 :: real) powi (- 27)" by simp
  moreover have "(2 :: real) powi (- 27) \<le> 2 powi 0" by (intro power_int_increasing) simp_all
  ultimately show ?thesis by (simp add: cornerRandom_def)
qed

lemma corner_position:
  "initPosition cornerRandom 0 = (Num nearFifteen, Num 0, Num nearTwo)"
  by (simp add: initPosition_def Let_def Math_PI_def randomRange_def cornerRandom_def
      nearFifteen_def nearTwo_def)

lemma corner_stored:
  "Math_fround (Num nearFifteen) = Num 15" "Math_fround (Num nearTwo) = Num 2"
proof -
  have "round_to 24 (- 126) nearFifteen = of_int 15728640 * 2 powi (3 - int 24 + 1)"
    by (rule round_to_eval) (simp_all add: nearFifteen_def)
  then have r: "fl32 nearFifteen = 15" by (simp add: fl32_def)
  have "round_to 24 (- 126) nearTwo = of_int 16777216 * 2 powi (0 - int 24 + 1)"
    by (rule round_to_eval) (simp_all add: nearTwo_def)
  then have z: "fl32 nearTwo = 2" by (simp add: fl32_def)
  have "\<bar>nearFifteen\<bar> \<le> 2 powi 64" by (simp add: nearFifteen_def)
  then show "Math_fround (Num nearFifteen) = Num 15"
    using Math_fround_small [of nearFifteen] r by simp
  have "\<bar>nearTwo\<bar> \<le> 2 powi 64" by (simp add: nearTwo_def)
  then show "Math_fround (Num nearTwo) = Num 2" using Math_fround_small [of nearTwo] z by simp
qed

lemma corner_values:
  "nearFifteen = 15 - 7 * 2 powi (- 26)" "nearTwo = 2 - 2 powi (- 25)"
  "nearFifteen < 15" "nearTwo < 2"
  by (simp_all add: nearFifteen_def nearTwo_def)

lemma Math_fround_15 [simp]: "Math_fround (Num 15) = Num 15"
  using Math_fround_int [of 15] by simp

text \<open>
  C10, as the claim states it, fails: the arrays hold float32 numbers. With the draws 0
  for the angle and \<open>1 - 2 powi (- 27)\<close>, which is below 1, for the radius and for the depth,
  the pass computes the radius \<open>15 - 7 * 2 powi (- 26)\<close> and the depth \<open>2 - 2 powi (- 25)\<close>,
  and the array stores \<open>(15, 0, 2)\<close>: a radius that is not below 15 and a depth that is not
  below 2.
\<close>

theorem init_counterexample:
  "(\<forall>k. 0 \<le> cornerRandom k \<and> cornerRandom k < 1)
   \<and> initPosition cornerRandom 0 = (Num nearFifteen, Num 0, Num nearTwo)
   \<and> nearFifteen < 15 \<and> nearTwo < 2
   \<and> (\<exists>a. initParticles 1 cornerRandom whitePalette = Some a
        \<and> at_index (initPos a) 0 = Num 15
        \<and> at_index (initPos a) 1 = Num 0
        \<and> at_index (initPos a) 2 = Num 2
        \<and> distOf (initialPositions (mountField a)) 0 = Num 15)"
proof -
  have r: "\<forall>k. 0 \<le> cornerRandom k \<and> cornerRandom k < 1"
    using cornerRandom_unit by blast
  have p: "whitePalette \<noteq> []" by (simp add: whitePalette_def)
  from initLoop_result [OF r p, of 1 0 "newArrays 1"] obtain a where
    a: "initParticles 1 cornerRandom whitePalette = Some a"
    and len: "length (initPos a) = 3"
    and nth: "\<forall>j < 3. initPos a ! j =
          Math_fround (coord (initPosition cornerRandom (j div 3)) (j mod 3))"
    by (auto simp: initParticles_def newArrays_def)
  have x: "at_index (initPos a) 0 = Num 15"
    using nth len by (simp add: at_index_def coord_def corner_position corner_stored)
  have y: "at_index (initPos a) 1 = Num 0"
    using nth len by (simp add: at_index_def coord_def corner_position)
  have z: "at_index (initPos a) 2 = Num 2"
    using nth len by (simp add: at_index_def coord_def corner_position corner_stored)
  have d: "distOf (initialPositions (mountField a)) 0 = Num 15"
    using distOf_Num [of "initPos a" 0 15 0] x y by (simp add: mountField_def)
  from r a x y z d corner_position corner_values(3,4) show ?thesis by blast
qed

text \<open>
  C10, amended. When every call of \<open>Math.random()\<close> returns a number in \<open>[0, 1)\<close> (and
  the palette is not empty), the initialisation completes, and every particle \<open>i\<close> that
  it makes has a finite stored position \<open>(x, y, z)\<close> whose radius is in \<open>[1, 15]\<close> up to
  the float32 conversion, \<open>1 - 1e-6 \<le> sqrt (x * x + y * y) \<le> 15 + 1e-6\<close>, and whose
  depth is in the closed interval, \<open>-2 \<le> z \<le> 2\<close>. So the distance \<open>dist\<close> that the frame
  computes for the particle is below 20, and the factor \<open>1 - dist / 20\<close> of the wind is
  positive.
\<close>

theorem init_bounds:
  assumes "\<forall>k. 0 \<le> random k \<and> random k < 1" and "palette \<noteq> []"
  shows "\<exists>a. initParticles n random palette = Some a
     \<and> length (initPos a) = n * 3
     \<and> (\<forall>i < n. \<exists>x y z.
           at_index (initPos a) (i * 3) = Num x
           \<and> at_index (initPos a) (i * 3 + 1) = Num y
           \<and> at_index (initPos a) (i * 3 + 2) = Num z
           \<and> 1 - 1 / 1000000 \<le> sqrt (x * x + y * y) \<and> sqrt (x * x + y * y) \<le> 15 + 1 / 1000000
           \<and> - 2 \<le> z \<and> z \<le> 2
           \<and> distOf (initialPositions (mountField a)) i = Num (sqrt (x * x + y * y))
           \<and> sqrt (x * x + y * y) < 20
           \<and> 1 - distOf (initialPositions (mountField a)) i / 20 = Num (1 - sqrt (x * x + y * y) / 20)
           \<and> 0 < 1 - sqrt (x * x + y * y) / 20)"
proof -
  from initLoop_result [OF assms, of n 0 "newArrays n"] obtain a where
    a: "initParticles n random palette = Some a"
    and len: "length (initPos a) = n * 3"
    and nth: "\<forall>j < n * 3. initPos a ! j =
          (if j < 3 * n then Math_fround (coord (initPosition random (j div 3)) (j mod 3))
           else initPos (newArrays n) ! j)"
    by (auto simp: initParticles_def newArrays_def)
  have "\<exists>x y z.
           at_index (initPos a) (i * 3) = Num x
           \<and> at_index (initPos a) (i * 3 + 1) = Num y
           \<and> at_index (initPos a) (i * 3 + 2) = Num z
           \<and> 1 - 1 / 1000000 \<le> sqrt (x * x + y * y) \<and> sqrt (x * x + y * y) \<le> 15 + 1 / 1000000
           \<and> - 2 \<le> z \<and> z \<le> 2
           \<and> distOf (initialPositions (mountField a)) i = Num (sqrt (x * x + y * y))
           \<and> sqrt (x * x + y * y) < 20
           \<and> 1 - distOf (initialPositions (mountField a)) i / 20 = Num (1 - sqrt (x * x + y * y) / 20)
           \<and> 0 < 1 - sqrt (x * x + y * y) / 20" if i: "i < n" for i
  proof -
    from initPosition_Num [of random i] assms(1) obtain x0 y0 z0 where
      p: "initPosition random i = (Num x0, Num y0, Num z0)"
      and r: "1 \<le> sqrt (x0 * x0 + y0 * y0)" "sqrt (x0 * x0 + y0 * y0) < 15"
      and z: "- 2 \<le> z0" "z0 < 2"
      by blast
    let ?x = "fl32 x0" and ?y = "fl32 y0" and ?z = "fl32 z0"
    have b: "\<bar>x0\<bar> \<le> 16" "\<bar>y0\<bar> \<le> 16" "\<bar>z0\<bar> \<le> 16"
      using abs_le_radius [of x0 y0] abs_le_radius [of y0 x0] r(2) z
      by (simp_all add: add.commute)
    have j: "i * 3 < n * 3" "i * 3 + 1 < n * 3" "i * 3 + 2 < n * 3" "i * 3 < 3 * n"
      "i * 3 + 1 < 3 * n" "i * 3 + 2 < 3 * n"
      using i by simp_all
    have x: "at_index (initPos a) (i * 3) = Num ?x"
      using nth j(1,4) len p stored_coordinate [OF b(1)]
      by (simp only: at_index_def index_div_mod if_True) (simp add: coord_def)
    have y: "at_index (initPos a) (i * 3 + 1) = Num ?y"
      using nth j(2,5) len p stored_coordinate [OF b(2)]
      by (simp only: at_index_def index_div_mod if_True) (simp add: coord_def)
    have z': "at_index (initPos a) (i * 3 + 2) = Num ?z"
      using nth j(3,6) len p stored_coordinate [OF b(3)]
      by (simp only: at_index_def index_div_mod if_True) (simp add: coord_def)
    have "sqrt (x0 * x0 + y0 * y0) < 16" using r(2) by simp
    then have s: "\<bar>sqrt (?x * ?x + ?y * ?y) - sqrt (x0 * x0 + y0 * y0)\<bar> \<le> 1 / 1000000"
      by (rule stored_radius)
    have rad: "1 - 1 / 1000000 \<le> sqrt (?x * ?x + ?y * ?y)"
      "sqrt (?x * ?x + ?y * ?y) \<le> 15 + 1 / 1000000"
      using s r by linarith+
    have dep: "- 2 \<le> ?z" "?z \<le> 2" using z by (rule stored_depth)+
    have d: "distOf (initialPositions (mountField a)) i = Num (sqrt (?x * ?x + ?y * ?y))"
      using distOf_Num [of "initPos a" i ?x ?y] x y by (simp add: mountField_def)
    have f: "1 - distOf (initialPositions (mountField a)) i / 20
        = Num (1 - sqrt (?x * ?x + ?y * ?y) / 20)"
      by (simp only: d) simp
    have "sqrt (?x * ?x + ?y * ?y) < 20" "0 < 1 - sqrt (?x * ?x + ?y * ?y) / 20"
      using rad(2) by simp_all
    with x y z' rad dep d f show ?thesis by blast
  qed
  with a len show ?thesis by blast
qed

theorem init_bounds_witness:
  "(\<forall>k. 0 \<le> halfRandom k \<and> halfRandom k < 1) \<and> whitePalette \<noteq> []
   \<and> (\<exists>a. initParticles PARTICLE_COUNT halfRandom whitePalette = Some a
        \<and> length (initPos a) = PARTICLE_COUNT * 3
        \<and> (\<exists>x y z.
              at_index (initPos a) (0 * 3) = Num x
              \<and> at_index (initPos a) (0 * 3 + 1) = Num y
              \<and> at_index (initPos a) (0 * 3 + 2) = Num z
              \<and> 1 - 1 / 1000000 \<le> sqrt (x * x + y * y) \<and> sqrt (x * x + y * y) \<le> 15 + 1 / 1000000
              \<and> - 2 \<le> z \<and> z \<le> 2
              \<and> 0 < 1 - sqrt (x * x + y * y) / 20))"
proof -
  have r: "\<forall>k. 0 \<le> halfRandom k \<and> halfRandom k < 1"
    by (simp add: halfRandom_def)
  have p: "whitePalette \<noteq> []"
    by (simp add: whitePalette_def)
  have n: "0 < PARTICLE_COUNT"
    by (simp add: PARTICLE_COUNT_def)
  from init_bounds [OF r p, of PARTICLE_COUNT] n
  have "\<exists>a. initParticles PARTICLE_COUNT halfRandom whitePalette = Some a
        \<and> length (initPos a) = PARTICLE_COUNT * 3
        \<and> (\<exists>x y z.
              at_index (initPos a) (0 * 3) = Num x
              \<and> at_index (initPos a) (0 * 3 + 1) = Num y
              \<and> at_index (initPos a) (0 * 3 + 2) = Num z
              \<and> 1 - 1 / 1000000 \<le> sqrt (x * x + y * y) \<and> sqrt (x * x + y * y) \<le> 15 + 1 / 1000000
              \<and> - 2 \<le> z \<and> z \<le> 2
              \<and> 0 < 1 - sqrt (x * x + y * y) / 20)"
    by fast
  with r p show ?thesis by blast
qed

end
